theory Spec2Isabelle
  imports Complex_Main "HOL-Library.AList" "HOL-Library.Multiset" "HOL-Library.Word"
begin

section \<open>Shared vocabulary\<close>

text \<open>
  Byte buffers (\<open>ArrayBuffer\<close>) are lists of bytes. A JavaScript string is represented
  by its UTF-8 encoding, one \<open>char\<close> per byte, so \<open>TextEncoder.encode\<close> and
  \<open>TextDecoder.decode\<close> convert between \<open>string\<close> and \<open>bytes\<close> bytewise.
\<close>

type_synonym byte = "8 word"
type_synonym bytes = "byte list"

definition textEncode :: "string \<Rightarrow> bytes" where
  "textEncode text = map of_char text"

definition textDecode :: "bytes \<Rightarrow> string" where
  "textDecode buffer = map (\<lambda>b. char_of (unat b)) buffer"

text \<open>Every rejection and \<open>throw\<close> of the source is a value of this type.\<close>

datatype error =
    UnsupportedContext      \<comment> \<open>"Unsupported execution context for OPFS"\<close>
  | OpfsNotSupported        \<comment> \<open>"OPFS is not supported in this browser"\<close>
  | OpfsNotInitialized      \<comment> \<open>"OPFS not initialized"\<close>
  | InvalidFilePath         \<comment> \<open>"Invalid file path"\<close>
  | InvalidDirectoryPath    \<comment> \<open>"Invalid directory path"\<close>
  | UnsupportedDataType     \<comment> \<open>"Unsupported data type"\<close>
  | NotFoundError           \<comment> \<open>platform: no entry of that name\<close>
  | TypeMismatchError       \<comment> \<open>platform: the entry of that name is of the other kind\<close>
  | TypeError               \<comment> \<open>platform: not a file name, or not writable data\<close>
  | JsonSyntaxError         \<comment> \<open>\<open>JSON.parse\<close> rejects the text\<close>
  | EncodingError           \<comment> \<open>\<open>decodeAudioData\<close> rejects the payload\<close>
  | InvalidStateError       \<comment> \<open>platform: operation on a closed audio context\<close>

text \<open>\<open>String.prototype.split\<close> with a one-character separator.\<close>

fun split :: "char \<Rightarrow> string \<Rightarrow> string list" where
  "split sep [] = [[]]"
| "split sep (c # cs) =
     (if c = sep then [] # split sep cs
      else (case split sep cs of [] \<Rightarrow> [[c]] | w # ws \<Rightarrow> (c # w) # ws))"

section \<open>The storage engine \<open>OpfsStorage\<close> (\<open>src/utils/storage.ts\<close>)\<close>

subsection \<open>The origin-private file system of the platform\<close>

text \<open>
  The platform's file system is a table from absolute paths (lists of names below the
  root) to entries, in creation order. The root is the empty path and always a directory;
  a directory handle is the path of its directory.
\<close>

datatype entry = FileEntry bytes | DirEntry

type_synonym handle = "string list"
type_synonym fileSystem = "(handle \<times> entry) list"

definition validFileName :: "string \<Rightarrow> bool" where
  "validFileName n \<longleftrightarrow> n \<noteq> [] \<and> n \<noteq> ''.'' \<and> n \<noteq> ''..'' \<and> CHR ''/'' \<notin> set n"

definition isDirectory :: "fileSystem \<Rightarrow> handle \<Rightarrow> bool" where
  "isDirectory fs dir \<longleftrightarrow> dir = [] \<or> map_of fs dir = Some DirEntry"

text \<open>\<open>dirHandle.getDirectoryHandle(name, { create })\<close>\<close>

definition getDirectoryHandle ::
  "bool \<Rightarrow> handle \<Rightarrow> string \<Rightarrow> fileSystem \<Rightarrow> (error + handle) \<times> fileSystem" where
  "getDirectoryHandle create dir n fs =
     (if \<not> validFileName n then (Inl TypeError, fs)
      else if \<not> isDirectory fs dir then (Inl NotFoundError, fs)
      else case map_of fs (dir @ [n]) of
             Some DirEntry \<Rightarrow> (Inr (dir @ [n]), fs)
           | Some (FileEntry content) \<Rightarrow> (Inl TypeMismatchError, fs)
           | None \<Rightarrow> if create then (Inr (dir @ [n]), AList.update (dir @ [n]) DirEntry fs)
                     else (Inl NotFoundError, fs))"

text \<open>\<open>dirHandle.getFileHandle(name, { create })\<close>\<close>

definition getFileHandle ::
  "bool \<Rightarrow> handle \<Rightarrow> string \<Rightarrow> fileSystem \<Rightarrow> (error + handle) \<times> fileSystem" where
  "getFileHandle create dir n fs =
     (if \<not> validFileName n then (Inl TypeError, fs)
      else if \<not> isDirectory fs dir then (Inl NotFoundError, fs)
      else case map_of fs (dir @ [n]) of
             Some (FileEntry content) \<Rightarrow> (Inr (dir @ [n]), fs)
           | Some DirEntry \<Rightarrow> (Inl TypeMismatchError, fs)
           | None \<Rightarrow> if create then (Inr (dir @ [n]), AList.update (dir @ [n]) (FileEntry []) fs)
                     else (Inl NotFoundError, fs))"

text \<open>The content behind a file handle (\<open>getFile().arrayBuffer()\<close>, or a read of \<open>getSize()\<close> bytes).\<close>

definition fileContent :: "fileSystem \<Rightarrow> handle \<Rightarrow> error + bytes" where
  "fileContent fs h =
     (case map_of fs h of Some (FileEntry content) \<Rightarrow> Inr content | _ \<Rightarrow> Inl NotFoundError)"

text \<open>Synchronous access handle: \<open>truncate(size)\<close> and \<open>write(buffer)\<close> at the file start.\<close>

definition truncateTo :: "nat \<Rightarrow> bytes \<Rightarrow> bytes" where
  "truncateTo n content = take n content @ replicate (n - length content) 0"

definition writeAtStart :: "bytes \<Rightarrow> bytes \<Rightarrow> bytes" where
  "writeAtStart buffer content = buffer @ drop (length buffer) content"

definition syncTruncate :: "nat \<Rightarrow> handle \<Rightarrow> fileSystem \<Rightarrow> fileSystem" where
  "syncTruncate n h fs =
     (case map_of fs h of
        Some (FileEntry content) \<Rightarrow> AList.update h (FileEntry (truncateTo n content)) fs
      | _ \<Rightarrow> fs)"

definition syncWrite :: "bytes \<Rightarrow> handle \<Rightarrow> fileSystem \<Rightarrow> fileSystem" where
  "syncWrite buffer h fs =
     (case map_of fs h of
        Some (FileEntry content) \<Rightarrow> AList.update h (FileEntry (writeAtStart buffer content)) fs
      | _ \<Rightarrow> fs)"

text \<open>
  A writable stream opened without \<open>keepExistingData\<close> starts empty; \<open>close()\<close> replaces
  the file's content with what was written.
\<close>

definition streamReplace :: "bytes \<Rightarrow> handle \<Rightarrow> fileSystem \<Rightarrow> fileSystem" where
  "streamReplace written h fs =
     (case map_of fs h of
        Some (FileEntry content) \<Rightarrow> AList.update h (FileEntry written) fs
      | _ \<Rightarrow> fs)"

text \<open>\<open>dirHandle.entries()\<close>: the names and entries directly below a directory.\<close>

definition entries :: "fileSystem \<Rightarrow> handle \<Rightarrow> (string \<times> entry) list" where
  "entries fs dir = map (\<lambda>(p, e). (last p, e)) (filter (\<lambda>(p, e). p \<noteq> [] \<and> butlast p = dir) fs)"

subsection \<open>The data a caller may pass to \<open>saveFile\<close>\<close>

text \<open>
  A typed view is its underlying buffer with \<open>byteOffset\<close> and \<open>byteLength\<close>.
  \<open>OtherData\<close> stands for a value outside the declared union.
\<close>

datatype fileData =
    StringData string
  | ArrayBufferData bytes
  | BlobData bytes
  | ViewData bytes nat nat
  | OtherData

text \<open>\<open>buffer.slice(begin, end)\<close> for \<open>0 \<le> begin \<le> end\<close>.\<close>

definition slice :: "nat \<Rightarrow> nat \<Rightarrow> bytes \<Rightarrow> bytes" where
  "slice b e buffer = take (e - b) (drop b buffer)"

text \<open>
  The bytes of a piece of data: the UTF-8 encoding of a string, the content of a buffer or
  blob, the window of a view. \<open>writable.write(data)\<close> writes exactly these.
\<close>

fun bytesOf :: "fileData \<Rightarrow> bytes option" where
  "bytesOf (StringData text) = Some (textEncode text)"
| "bytesOf (ArrayBufferData buffer) = Some buffer"
| "bytesOf (BlobData content) = Some content"
| "bytesOf (ViewData buffer byteOffset byteLength) = Some (take byteLength (drop byteOffset buffer))"
| "bytesOf OtherData = None"

text \<open>The conversion chain of the worker branch of \<open>saveFile\<close>, in its order.\<close>

fun toArrayBuffer :: "fileData \<Rightarrow> bytes option" where
  "toArrayBuffer (StringData text) = Some (textEncode text)"
| "toArrayBuffer (ArrayBufferData buffer) = Some buffer"
| "toArrayBuffer (ViewData buffer byteOffset byteLength) =
     Some (slice byteOffset (byteOffset + byteLength) buffer)"
| "toArrayBuffer (BlobData content) = Some content"
| "toArrayBuffer OtherData = None"

subsection \<open>The class \<open>OpfsStorage\<close>\<close>

datatype executionContext = Worker | Window | Unknown

datatype changeType = FileAdded | FileDeleted | DirectoryAdded | DirectoryDeleted

record OpfsChangeDetail =
  change_type :: changeType
  change_path :: string

datatype promiseState = Fulfilled | Rejected error

text \<open>
  The static fields of the class, the three facts of the platform that the class probes,
  the file system, and the change events dispatched on \<open>window\<close> so far.
\<close>

record opfsStorage =
  rootDir :: "handle option"
  execContext :: executionContext
  initPromise :: "promiseState option"
  workerGlobalScope :: bool     \<comment> \<open>\<open>self instanceof WorkerGlobalScope\<close>\<close>
  windowDefined :: bool         \<comment> \<open>\<open>typeof window !== "undefined"\<close>\<close>
  getDirectoryDefined :: bool   \<comment> \<open>\<open>navigator?.storage?.getDirectory\<close> is there\<close>
  fileSystem :: fileSystem
  dispatched :: "OpfsChangeDetail list"

definition emitChange :: "OpfsChangeDetail \<Rightarrow> opfsStorage \<Rightarrow> opfsStorage" where
  "emitChange detail s =
     (if windowDefined s then s\<lparr> dispatched := dispatched s @ [detail] \<rparr> else s)"

definition getExecutionContext :: "opfsStorage \<Rightarrow> executionContext" where
  "getExecutionContext s =
     (if workerGlobalScope s then Worker
      else if windowDefined s then Window
      else Unknown)"

definition ensureInit :: "opfsStorage \<Rightarrow> error option \<times> opfsStorage" where
  "ensureInit s =
     (if rootDir s \<noteq> None then (None, s)
      else case initPromise s of
             Some Fulfilled \<Rightarrow> (None, s)
           | Some (Rejected e) \<Rightarrow> (Some e, s)
           | None \<Rightarrow>
               (let s1 = s\<lparr> execContext := getExecutionContext s \<rparr> in
                if execContext s1 = Unknown
                then (Some UnsupportedContext,
                      s1\<lparr> initPromise := Some (Rejected UnsupportedContext) \<rparr>)
                else if \<not> getDirectoryDefined s1
                then (Some OpfsNotSupported,
                      s1\<lparr> initPromise := Some (Rejected OpfsNotSupported) \<rparr>)
                else (None, s1\<lparr> rootDir := Some [], initPromise := Some Fulfilled \<rparr>)))"

text \<open>\<open>path.split("/").filter(Boolean)\<close>\<close>

definition pathParts :: "string \<Rightarrow> string list" where
  "pathParts path = filter (\<lambda>part. part \<noteq> []) (split CHR ''/'' path)"

text \<open>The loop \<open>for (const part of parts) dirHandle = await dirHandle.getDirectoryHandle(part, ...)\<close>.\<close>

fun walkDirectories ::
  "bool \<Rightarrow> handle \<Rightarrow> string list \<Rightarrow> fileSystem \<Rightarrow> (error + handle) \<times> fileSystem" where
  "walkDirectories create dirHandle [] fs = (Inr dirHandle, fs)"
| "walkDirectories create dirHandle (part # parts) fs =
     (case getDirectoryHandle create dirHandle part fs of
        (Inl e, fs1) \<Rightarrow> (Inl e, fs1)
      | (Inr h, fs1) \<Rightarrow> walkDirectories create h parts fs1)"

definition ensureDirectory ::
  "string \<Rightarrow> bool \<Rightarrow> opfsStorage \<Rightarrow> (error + handle \<times> string) \<times> opfsStorage" where
  "ensureDirectory path create s =
     (case rootDir s of
        None \<Rightarrow> (Inl OpfsNotInitialized, s)
      | Some rootHandle \<Rightarrow>
          (let parts = pathParts path in
           if parts = [] then (Inl InvalidFilePath, s)
           else case walkDirectories create rootHandle (butlast parts) (fileSystem s) of
                  (Inl e, fs1) \<Rightarrow> (Inl e, s\<lparr> fileSystem := fs1 \<rparr>)
                | (Inr dirHandle, fs1) \<Rightarrow> (Inr (dirHandle, last parts), s\<lparr> fileSystem := fs1 \<rparr>)))"

definition saveFile :: "string \<Rightarrow> fileData \<Rightarrow> opfsStorage \<Rightarrow> error option \<times> opfsStorage" where
  "saveFile path data s =
     (case ensureInit s of
        (Some e, s1) \<Rightarrow> (Some e, s1)
      | (None, s1) \<Rightarrow>
         (if rootDir s1 = None then (Some OpfsNotInitialized, s1)
          else
            (case ensureDirectory path True s1 of
               (Inl e, s2) \<Rightarrow> (Some e, s2)
             | (Inr (dirHandle, leaf), s2) \<Rightarrow>
                (case getFileHandle True dirHandle leaf (fileSystem s2) of
                   (Inl e, fs3) \<Rightarrow> (Some e, s2\<lparr> fileSystem := fs3 \<rparr>)
                 | (Inr fileHandle, fs3) \<Rightarrow>
                    (let s3 = s2\<lparr> fileSystem := fs3 \<rparr> in
                     if execContext s3 = Worker then
                       (case toArrayBuffer data of
                          None \<Rightarrow> (Some UnsupportedDataType, s3)
                        | Some buffer \<Rightarrow>
                           (let fs4 = syncTruncate 0 fileHandle (fileSystem s3);
                                fs5 = syncWrite buffer fileHandle fs4
                            in (None, emitChange \<lparr> change_type = FileAdded, change_path = path \<rparr>
                                        (s3\<lparr> fileSystem := fs5 \<rparr>))))
                     else
                       (case bytesOf data of
                          None \<Rightarrow> (Some TypeError, s3)
                        | Some written \<Rightarrow>
                           (None, emitChange \<lparr> change_type = FileAdded, change_path = path \<rparr>
                                    (s3\<lparr> fileSystem :=
                                          streamReplace written fileHandle (fileSystem s3) \<rparr>))))))))"

definition readFile :: "string \<Rightarrow> opfsStorage \<Rightarrow> (error + bytes) \<times> opfsStorage" where
  "readFile path s =
     (case ensureInit s of
        (Some e, s1) \<Rightarrow> (Inl e, s1)
      | (None, s1) \<Rightarrow>
         (if rootDir s1 = None then (Inl OpfsNotInitialized, s1)
          else
            (case ensureDirectory path False s1 of
               (Inl e, s2) \<Rightarrow> (Inl e, s2)
             | (Inr (dirHandle, leaf), s2) \<Rightarrow>
                (case getFileHandle False dirHandle leaf (fileSystem s2) of
                   (Inl e, fs3) \<Rightarrow> (Inl e, s2\<lparr> fileSystem := fs3 \<rparr>)
                 | (Inr fileHandle, fs3) \<Rightarrow>
                    (let s3 = s2\<lparr> fileSystem := fs3 \<rparr> in
                     if execContext s3 = Worker then (fileContent (fileSystem s3) fileHandle, s3)
                     else (fileContent (fileSystem s3) fileHandle, s3))))))"

text \<open>
  \<open>listDirectories\<close> and \<open>listFiles\<close> differ in the kind of entry they keep. A missing
  argument is the default \<open>""\<close>.
\<close>

definition listEntries ::
  "(entry \<Rightarrow> bool) \<Rightarrow> string \<Rightarrow> opfsStorage \<Rightarrow> (error + string list) \<times> opfsStorage" where
  "listEntries kind path s =
     (case ensureInit s of
        (Some e, s1) \<Rightarrow> (Inl e, s1)
      | (None, s1) \<Rightarrow>
     (case rootDir s1 of
        None \<Rightarrow> (Inl OpfsNotInitialized, s1)
      | Some rootHandle \<Rightarrow>
     (case walkDirectories False rootHandle (if path \<noteq> [] then pathParts path else []) (fileSystem s1) of
        (Inl e, fs2) \<Rightarrow> (Inl e, s1\<lparr> fileSystem := fs2 \<rparr>)
      | (Inr dirHandle, fs2) \<Rightarrow>
          (Inr (map fst (filter (\<lambda>(n, e). kind e) (entries fs2 dirHandle))),
           s1\<lparr> fileSystem := fs2 \<rparr>))))"

definition listDirectories :: "string \<Rightarrow> opfsStorage \<Rightarrow> (error + string list) \<times> opfsStorage" where
  "listDirectories = listEntries (\<lambda>e. e = DirEntry)"

definition listFiles :: "string \<Rightarrow> opfsStorage \<Rightarrow> (error + string list) \<times> opfsStorage" where
  "listFiles = listEntries (\<lambda>e. e \<noteq> DirEntry)"

text \<open>The class as loaded, over a platform and a file system.\<close>

definition initialStorage :: "bool \<Rightarrow> bool \<Rightarrow> bool \<Rightarrow> fileSystem \<Rightarrow> opfsStorage" where
  "initialStorage worker window getDirectory fs =
     \<lparr> rootDir = None, execContext = Unknown, initPromise = None,
       workerGlobalScope = worker, windowDefined = window, getDirectoryDefined = getDirectory,
       fileSystem = fs, dispatched = [] \<rparr>"

section \<open>The catalog hook \<open>useOpfsDirectories\<close>\<close>

text \<open>
  The interface declares \<open>mimeType\<close> a string. The object that \<open>createAudioMetadata\<close>
  builds can hold, in its place, a member that the table of MIME types inherits from
  \<open>Object.prototype\<close>: a function, or the prototype itself.
\<close>

datatype propertyValue = StringValue string | InheritedMember string

record AudioMetadata =
  md_name :: string
  md_folderName :: string
  md_fileName :: string
  md_color :: string
  md_cover :: string
  md_size :: nat
  md_mimeType :: propertyValue
  md_duration :: "real option"
  md_uploadedAt :: int
  md_lastModified :: int

text \<open>
  \<open>Array.prototype.sort(compare)\<close> is a stable sort: an element moves in front of another
  only when the comparator puts it strictly before. Insertion from the right realises it.
\<close>

fun insertSorted :: "('a \<Rightarrow> 'a \<Rightarrow> int) \<Rightarrow> 'a \<Rightarrow> 'a list \<Rightarrow> 'a list" where
  "insertSorted compare x [] = [x]"
| "insertSorted compare x (y # ys) =
     (if compare x y \<le> 0 then x # y # ys else y # insertSorted compare x ys)"

definition arraySort :: "('a \<Rightarrow> 'a \<Rightarrow> int) \<Rightarrow> 'a list \<Rightarrow> 'a list" where
  "arraySort compare xs = foldr (insertSorted compare) xs []"

text \<open>
  \<open>Promise.all(items.map(f))\<close>: every callback runs, the results keep the order of the
  items, and the first rejection in that order rejects the whole.
\<close>

fun promiseAll ::
  "('a \<Rightarrow> 's \<Rightarrow> (error + 'b) \<times> 's) \<Rightarrow> 'a list \<Rightarrow> 's \<Rightarrow> (error + 'b list) \<times> 's" where
  "promiseAll f [] s = (Inr [], s)"
| "promiseAll f (x # xs) s =
     (case f x s of (r, s1) \<Rightarrow>
        (case promiseAll f xs s1 of (rs, s2) \<Rightarrow>
           ((case r of
               Inl e \<Rightarrow> Inl e
             | Inr v \<Rightarrow> (case rs of Inl e \<Rightarrow> Inl e | Inr vs \<Rightarrow> Inr (v # vs))), s2)))"

text \<open>The React state of the hook.\<close>

record catalog =
  folders :: "AudioMetadata list"
  isLoading :: bool
  loadError :: "error option"

definition initialCatalog :: catalog where
  "initialCatalog = \<lparr> folders = [], isLoading = True, loadError = None \<rparr>"

text \<open>
  The callback mapped over the directories in \<open>loadFolders\<close>: read the sidecar, decode it as
  text, parse it. \<open>jsonParse\<close> is \<open>JSON.parse\<close> with the cast to \<open>AudioMetadata\<close>.
\<close>

definition loadMetadata ::
  "(string \<Rightarrow> error + AudioMetadata) \<Rightarrow> string \<Rightarrow> opfsStorage \<Rightarrow>
   (error + AudioMetadata) \<times> opfsStorage" where
  "loadMetadata jsonParse folder s =
     (let metadataPath = folder @ ''/metadata.json'' in
      case readFile metadataPath s of
        (Inl e, s1) \<Rightarrow> (Inl e, s1)
      | (Inr buffer, s1) \<Rightarrow> (jsonParse (textDecode buffer), s1))"

definition loadFolders ::
  "(string \<Rightarrow> error + AudioMetadata) \<Rightarrow> opfsStorage \<times> catalog \<Rightarrow> opfsStorage \<times> catalog" where
  "loadFolders jsonParse = (\<lambda>(s, h).
     (case listDirectories [] s of
        (Inl err, s1) \<Rightarrow> (s1, h\<lparr> loadError := Some err, isLoading := False \<rparr>)
      | (Inr directories, s1) \<Rightarrow>
     (case promiseAll (loadMetadata jsonParse) directories s1 of
        (Inl err, s2) \<Rightarrow> (s2, h\<lparr> loadError := Some err, isLoading := False \<rparr>)
      | (Inr loaded, s2) \<Rightarrow>
          (let foldersWithMetadata =
                 arraySort (\<lambda>a b. md_uploadedAt b - md_uploadedAt a) loaded
           in (s2, h\<lparr> folders := foldersWithMetadata, loadError := None,
                       isLoading := False \<rparr>)))))"

record fileEntry =
  fe_metadata :: AudioMetadata
  fe_buffer :: bytes

text \<open>The callback mapped over the directories in \<open>getAllFiles\<close>; \<open>None\<close> is its \<open>null\<close>.\<close>

definition readFolder ::
  "(string \<Rightarrow> error + AudioMetadata) \<Rightarrow> string \<Rightarrow> opfsStorage \<Rightarrow>
   (error + fileEntry option) \<times> opfsStorage" where
  "readFolder jsonParse folder s =
     (case listFiles folder s of
        (Inl e, s1) \<Rightarrow> (Inr None, s1)
      | (Inr files, s1) \<Rightarrow>
     (case find (\<lambda>file. file \<noteq> ''metadata.json'') files of
        None \<Rightarrow> (Inr None, s1)
      | Some audioFile \<Rightarrow>
     (case loadMetadata jsonParse folder s1 of
        (Inl e, s2) \<Rightarrow> (Inr None, s2)
      | (Inr metadata, s2) \<Rightarrow>
     (case readFile (folder @ ''/'' @ audioFile) s2 of
        (Inl e, s3) \<Rightarrow> (Inr None, s3)
      | (Inr buffer, s3) \<Rightarrow>
          (Inr (Some \<lparr> fe_metadata = metadata, fe_buffer = buffer \<rparr>), s3)))))"

definition getAllFiles ::
  "(string \<Rightarrow> error + AudioMetadata) \<Rightarrow> opfsStorage \<Rightarrow> (error + fileEntry list) \<times> opfsStorage" where
  "getAllFiles jsonParse s =
     (case listDirectories [] s of
        (Inl err, s1) \<Rightarrow> (Inl err, s1)
      | (Inr directories, s1) \<Rightarrow>
     (case promiseAll (readFolder jsonParse) directories s1 of
        (Inl err, s2) \<Rightarrow> (Inl err, s2)
      | (Inr buffers, s2) \<Rightarrow>
          (Inr (arraySort (\<lambda>a b. md_uploadedAt (fe_metadata b) - md_uploadedAt (fe_metadata a))
                  (map the (filter (\<lambda>item. item \<noteq> None) buffers))), s2)))"

section \<open>The upload component \<open>AddNew\<close> and \<open>src/utils/audio.ts\<close>\<close>

text \<open>A \<open>File\<close>: its name, MIME type, size, modification time and content.\<close>

record File =
  file_name :: string
  file_type :: string
  file_size :: nat
  file_lastModified :: int
  file_content :: bytes

definition AUDIO_MIME_TYPES :: "(string \<times> string) list" where
  "AUDIO_MIME_TYPES =
   [(''mp3'', ''audio/mpeg''), (''wav'', ''audio/wav''), (''ogg'', ''audio/ogg''),
     (''oga'', ''audio/ogg''), (''aac'', ''audio/aac''), (''m4a'', ''audio/mp4''),
     (''m4b'', ''audio/mp4''), (''m4p'', ''audio/mp4''), (''flac'', ''audio/flac''),
     (''alac'', ''audio/x-alac''), (''weba'', ''audio/webm''), (''aiff'', ''audio/aiff''),
     (''aif'', ''audio/aiff''), (''aifc'', ''audio/aiff''), (''opus'', ''audio/opus''),
     (''wma'', ''audio/x-ms-wma''), (''au'', ''audio/basic''), (''snd'', ''audio/basic''),
     (''mid'', ''audio/midi''), (''midi'', ''audio/midi''), (''kar'', ''audio/midi''),
     (''rmi'', ''audio/midi''), (''3gp'', ''audio/3gpp''), (''3ga'', ''audio/3gpp''),
     (''m3u'', ''audio/x-mpegurl''), (''m3u8'', ''audio/x-mpegurl''),
     (''mp1'', ''audio/mpeg''), (''mp2'', ''audio/mpeg''), (''mpa'', ''audio/mpeg''),
     (''ra'', ''audio/x-realaudio''), (''ram'', ''audio/x-pn-realaudio''),
     (''rm'', ''audio/x-pn-realaudio''), (''ape'', ''audio/x-monkeys-audio''),
     (''wv'', ''audio/x-wavpack''), (''tta'', ''audio/x-tta''), (''dts'', ''audio/vnd.dts''),
     (''dtshd'', ''audio/vnd.dts.hd''), (''ac3'', ''audio/ac3''), (''eac3'', ''audio/eac3''),
     (''amr'', ''audio/amr''), (''awb'', ''audio/amr-wb''), (''voc'', ''audio/x-voc''),
     (''spx'', ''audio/ogg'')]"

definition startsWith :: "string \<Rightarrow> string \<Rightarrow> bool" where
  "startsWith pre text \<longleftrightarrow> take (length pre) text = pre"

text \<open>
  The members that the object literal \<open>AUDIO_MIME_TYPES\<close> inherits from
  \<open>Object.prototype\<close>. \<open>key in AUDIO_MIME_TYPES\<close> finds them as it finds the table's own
  keys, and \<open>AUDIO_MIME_TYPES[key]\<close> returns them; each of them is truthy.
\<close>

definition objectPrototypeKeys :: "string list" where
  "objectPrototypeKeys =
    [''constructor'', ''__defineGetter__'', ''__defineSetter__'', ''hasOwnProperty'',
     ''__lookupGetter__'', ''__lookupSetter__'', ''isPrototypeOf'', ''propertyIsEnumerable'',
     ''toString'', ''valueOf'', ''__proto__'', ''toLocaleString'']"

definition inAudioMimeTypes :: "string \<Rightarrow> bool" where
  "inAudioMimeTypes key \<longleftrightarrow>
     key \<in> set (map fst AUDIO_MIME_TYPES) \<or> key \<in> set objectPrototypeKeys"

text \<open>
  \<open>String.prototype.toLowerCase\<close> is the platform's, over all of Unicode; the functions
  that call it take it as their first argument.
\<close>

definition getMimeTypeFromExtension :: "(string \<Rightarrow> string) \<Rightarrow> string \<Rightarrow> propertyValue" where
  "getMimeTypeFromExtension toLowerCase fileName =
     (let ext = last (split CHR ''.'' (toLowerCase fileName)) in
      case map_of AUDIO_MIME_TYPES ext of
        Some mime \<Rightarrow> StringValue mime
      | None \<Rightarrow> if ext \<in> set objectPrototypeKeys then InheritedMember ext
                else StringValue ''audio/mp3'')"

definition isValidAudioFile :: "(string \<Rightarrow> string) \<Rightarrow> File \<Rightarrow> bool" where
  "isValidAudioFile toLowerCase f =
     (let mimeType = file_type f;
          fileName = toLowerCase (file_name f);
          ext = last (split CHR ''.'' fileName)
      in if length mimeType > 0
         then startsWith ''audio/'' mimeType \<or> mimeType \<in> set (map snd AUDIO_MIME_TYPES)
         else ext \<noteq> [] \<and> inAudioMimeTypes ext)"

text \<open>
  The regular expression \<open>/\.[^/.]+$/\<close> matches at a position when a dot stands there and
  is followed, up to the end of the text, by one or more characters other than \<open>/\<close> and
  \<open>.\<close>. \<open>replace\<close> removes the leftmost match.
\<close>

definition extensionAt :: "string \<Rightarrow> bool" where
  "extensionAt text \<longleftrightarrow>
     (case text of
        [] \<Rightarrow> False
      | c # cs \<Rightarrow> c = CHR ''.'' \<and> cs \<noteq> [] \<and> (\<forall>d \<in> set cs. d \<noteq> CHR ''/'' \<and> d \<noteq> CHR ''.''))"

fun removeExtension :: "string \<Rightarrow> string" where
  "removeExtension [] = []"
| "removeExtension (c # cs) = (if extensionAt (c # cs) then [] else c # removeExtension cs)"

definition getAudioFolderName :: "File \<Rightarrow> string" where
  "getAudioFolderName f = removeExtension (file_name f)"

text \<open>What the component takes from its surroundings when it builds the sidecar.\<close>

record uploadEnv =
  env_now :: int          \<comment> \<open>\<open>Date.now()\<close>\<close>
  env_color :: string     \<comment> \<open>\<open>generateAudioColor()\<close>\<close>
  env_origin :: string    \<comment> \<open>\<open>window.location.origin\<close>\<close>

definition createAudioMetadata ::
  "(string \<Rightarrow> string) \<Rightarrow> uploadEnv \<Rightarrow> File \<Rightarrow> string \<Rightarrow> string \<Rightarrow> AudioMetadata" where
  "createAudioMetadata toLowerCase env f folder thumbnail =
     \<lparr> md_name = removeExtension (file_name f),
       md_folderName = folder,
       md_fileName = file_name f,
       md_color = env_color env,
       md_cover = thumbnail,
       md_size = file_size f,
       md_mimeType = (if file_type f \<noteq> [] then StringValue (file_type f)
                      else getMimeTypeFromExtension toLowerCase (file_name f)),
       md_duration = None,
       md_uploadedAt = env_now env,
       md_lastModified = file_lastModified f \<rparr>"

datatype alert = InvalidFileAlert | UploadFailedAlert

text \<open>
  \<open>handleFileUpload\<close>; \<open>jsonStringify\<close> is \<open>JSON.stringify(metadata, null, 2)\<close>. The result
  pairs the alert shown, if any, with the store.
\<close>

definition handleFileUpload ::
  "(string \<Rightarrow> string) \<Rightarrow> (AudioMetadata \<Rightarrow> string) \<Rightarrow> uploadEnv \<Rightarrow> File \<Rightarrow> opfsStorage \<Rightarrow>
   alert option \<times> opfsStorage" where
  "handleFileUpload toLowerCase jsonStringify env f s =
     (if \<not> isValidAudioFile toLowerCase f then (Some InvalidFileAlert, s)
      else
        (let folder = getAudioFolderName f;
             filePath = folder @ ''/'' @ file_name f;
             metadata = createAudioMetadata toLowerCase env f folder
                          (env_origin env @ ''/audio-thumbnail.jpg'')
         in case saveFile filePath (BlobData (file_content f)) s of
              (Some e, s1) \<Rightarrow> (Some UploadFailedAlert, s1)
            | (None, s1) \<Rightarrow>
               (let metadataPath = folder @ ''/metadata.json'';
                    metadataJson = jsonStringify metadata
                in case saveFile metadataPath (StringData metadataJson) s1 of
                     (Some e, s2) \<Rightarrow> (Some UploadFailedAlert, s2)
                   | (None, s2) \<Rightarrow> (None, s2))))"

text \<open>A sequence of uploads, each with its surroundings.\<close>

fun uploadAll ::
  "(string \<Rightarrow> string) \<Rightarrow> (AudioMetadata \<Rightarrow> string) \<Rightarrow> (uploadEnv \<times> File) list \<Rightarrow>
   opfsStorage \<Rightarrow> opfsStorage" where
  "uploadAll toLowerCase jsonStringify [] s = s"
| "uploadAll toLowerCase jsonStringify ((env, f) # rest) s =
     uploadAll toLowerCase jsonStringify rest
       (snd (handleFileUpload toLowerCase jsonStringify env f s))"

section \<open>The playback component \<open>StitchAudio\<close>\<close>

text \<open>
  Times are values of a type \<open>'t\<close> of which the definitions use only the operations the
  source applies to its numbers (\<open>+\<close>, \<open>-\<close>, \<open>0\<close>, comparison); no law of arithmetic
  is built into the model.
\<close>

datatype ctxState = Suspended | Running | Closed

record 't audioBuffer =
  duration :: 't
  channelData :: bytes

record 't sourceNode =
  buffer :: "'t audioBuffer"
  startAt :: 't        \<comment> \<open>the argument of \<open>source.start\<close>\<close>
  onended :: bool      \<comment> \<open>whether the completion callback is installed\<close>

record 't audioCtx =
  ctx_state :: ctxState
  currentTime :: 't
  sourceNodes :: "'t sourceNode list"   \<comment> \<open>started sources, in creation order\<close>

record gainNode =
  gain_value :: real

record 't playbackTimer =
  timer_duration :: 't
  timer_startTime :: 't
  timer_volume :: real
  timer_filesLen :: nat

record 't stitchAudio =
  audioCtxRef :: "'t audioCtx option"
  gainNodeRef :: "gainNode option"
  animationRef :: bool                  \<comment> \<open>a frame callback is registered (non-null id)\<close>
  playbackTimerRef :: "'t playbackTimer"
  isPlaying :: bool
  currTime :: 't
  durationState :: 't                   \<comment> \<open>the React state \<open>duration\<close>\<close>
  isStitching :: bool
  newCtxState :: ctxState               \<comment> \<open>platform: the state a new \<open>AudioContext\<close> starts in\<close>

text \<open>The component as mounted: the initial values of its refs and React state.\<close>

definition initialStitchAudio :: "ctxState \<Rightarrow> ('t::zero) stitchAudio" where
  "initialStitchAudio s0 =
     \<lparr> audioCtxRef = None, gainNodeRef = None, animationRef = False,
       playbackTimerRef = \<lparr> timer_duration = 0, timer_startTime = 0,
                            timer_volume = 80, timer_filesLen = 0 \<rparr>,
       isPlaying = False, currTime = 0, durationState = 0, isStitching = False,
       newCtxState = s0 \<rparr>"

definition freshAudioContext :: "('t::zero) stitchAudio \<Rightarrow> 't audioCtx" where
  "freshAudioContext st =
     \<lparr> ctx_state = newCtxState st, currentTime = 0, sourceNodes = [] \<rparr>"

definition createNewAudioContext :: "('t::zero) stitchAudio \<Rightarrow> 't stitchAudio" where
  "createNewAudioContext st = st\<lparr> audioCtxRef := Some (freshAudioContext st) \<rparr>"

definition getAudioContext :: "('t::zero) stitchAudio \<Rightarrow> 't audioCtx \<times> 't stitchAudio" where
  "getAudioContext st =
     (case audioCtxRef st of
        None \<Rightarrow> (freshAudioContext st, createNewAudioContext st)
      | Some c \<Rightarrow> (c, st))"

text \<open>Writes through the reference \<open>audioCtxRef.current\<close>.\<close>

definition updCtx :: "('t audioCtx \<Rightarrow> 't audioCtx) \<Rightarrow> 't stitchAudio \<Rightarrow> 't stitchAudio" where
  "updCtx f st = st\<lparr> audioCtxRef := map_option f (audioCtxRef st) \<rparr>"

definition getGainNode :: "('t::zero) stitchAudio \<Rightarrow> gainNode \<times> 't stitchAudio" where
  "getGainNode st =
     (let (audioCtx, st1) = getAudioContext st;
          gainNode = \<lparr> gain_value = timer_volume (playbackTimerRef st1) / 100 \<rparr>
      in (gainNode, st1\<lparr> gainNodeRef := Some gainNode \<rparr>))"

definition cancelAnimation :: "'t stitchAudio \<Rightarrow> 't stitchAudio" where
  "cancelAnimation st = (if animationRef st then st\<lparr> animationRef := False \<rparr> else st)"

text \<open>
  \<open>stopPlayback\<close>: \<open>suspend()\<close> rejects on a closed context, and the frame callback is
  then not cancelled.
\<close>

definition stopPlayback :: "('t::zero) stitchAudio \<Rightarrow> error option \<times> 't stitchAudio" where
  "stopPlayback st =
     (let (audioCtx, st1) = getAudioContext st;
          st2 = st1\<lparr> isPlaying := False \<rparr>
      in if ctx_state audioCtx = Closed then (Some InvalidStateError, st2)
         else (None, cancelAnimation (updCtx (\<lambda>c. c\<lparr> ctx_state := Suspended \<rparr>) st2)))"

definition endPlayback :: "('t::zero) stitchAudio \<Rightarrow> 't stitchAudio" where
  "endPlayback st =
     (let st1 = st\<lparr> isPlaying := False \<rparr>;
          st2 = (case audioCtxRef st1 of
                   None \<Rightarrow> st1
                 | Some c \<Rightarrow> if ctx_state c \<noteq> Closed
                             then updCtx (\<lambda>c. c\<lparr> ctx_state := Closed \<rparr>) st1 else st1);
          st3 = createNewAudioContext st2;
          st4 = st3\<lparr> playbackTimerRef := (playbackTimerRef st3)
                       \<lparr> timer_duration := 0, timer_filesLen := 0, timer_startTime := 0 \<rparr> \<rparr>;
          st5 = st4\<lparr> currTime := 0, durationState := 0 \<rparr>
      in cancelAnimation st5)"

text \<open>One tick of the position-polling loop.\<close>

definition updatePlaybackTime ::
  "('t::{zero,minus,ord}) stitchAudio \<Rightarrow> error option \<times> 't stitchAudio" where
  "updatePlaybackTime st =
     (let (audioCtx, st1) = getAudioContext st;
          duration' = timer_duration (playbackTimerRef st1);
          startTime = timer_startTime (playbackTimerRef st1);
          elapsedTime = currentTime audioCtx - startTime
      in if elapsedTime > duration' then stopPlayback st1
         else
           let st2 = (if elapsedTime \<le> duration' \<and> elapsedTime \<ge> 0
                      then st1\<lparr> currTime := elapsedTime \<rparr> else st1)
           in (None, st2\<lparr> animationRef := True \<rparr>))"

text \<open>The \<open>for\<close> loop of \<open>onPlayClick\<close>: one source per buffer, started at the running offset.\<close>

fun scheduleBuffers ::
  "('t::plus) \<Rightarrow> 't audioBuffer list \<Rightarrow> 't sourceNode list \<Rightarrow> 't \<times> 't sourceNode list" where
  "scheduleBuffers startTime [] nodes = (startTime, nodes)"
| "scheduleBuffers startTime (b # bs) nodes =
     scheduleBuffers (startTime + duration b) bs
       (nodes @ [\<lparr> buffer = b, startAt = startTime, onended = False \<rparr>])"

text \<open>\<open>lastSourceNode.onended = ...\<close>, when a source was created.\<close>

definition setLastOnended :: "'t sourceNode list \<Rightarrow> 't sourceNode list" where
  "setLastOnended nodes =
     (if nodes = [] then [] else butlast nodes @ [(last nodes)\<lparr> onended := True \<rparr>])"

text \<open>
  \<open>onPlayClick\<close>. The awaited collaborators are arguments: \<open>files\<close> is the outcome of
  \<open>getAllFiles()\<close>, \<open>decode\<close> is \<open>decodeAudioData\<close> (\<open>None\<close>: rejection), and \<open>t0\<close> is
  the reading of \<open>audioCtx.currentTime\<close> when the schedule is computed. The result pairs
  the rejection of the returned promise, if any, with the component's state.
\<close>

definition onPlayClick ::
  "error + fileEntry list \<Rightarrow> (bytes \<Rightarrow> 't audioBuffer option) \<Rightarrow> 't \<Rightarrow>
   ('t::{zero,plus,minus,ord}) stitchAudio \<Rightarrow> error option \<times> 't stitchAudio" where
  "onPlayClick files decode t0 st =
     (let (audioCtx, st1) = getAudioContext st in
      if ctx_state audioCtx = Suspended then
        (let st2 = updCtx (\<lambda>c. c\<lparr> ctx_state := Running \<rparr>) st1;
             st3 = st2\<lparr> isPlaying := True \<rparr>
         in (None, snd (updatePlaybackTime st3)))
      else if isPlaying st1 then stopPlayback st1
      else
        (let st2 = endPlayback st1;
             st3 = snd (getAudioContext st2);
             st4 = st3\<lparr> isStitching := True \<rparr>
         in case files of
              Inl e \<Rightarrow> (Some e, st4)
            | Inr data \<Rightarrow>
               (let st5 = st4\<lparr> playbackTimerRef :=
                               (playbackTimerRef st4)\<lparr> timer_filesLen := length data \<rparr> \<rparr>
                in case those (map (\<lambda>item. decode (fe_buffer item)) data) of
                     None \<Rightarrow> (Some EncodingError, st5)
                   | Some audioBuffers \<Rightarrow>
                      (let totalDuration = foldl (\<lambda>sum b. sum + duration b) 0 audioBuffers;
                           st6 = st5\<lparr> durationState := totalDuration \<rparr>;
                           st7 = updCtx (\<lambda>c. c\<lparr> currentTime := t0 \<rparr>) st6;
                           startTime = t0;
                           st8 = st7\<lparr> playbackTimerRef := (playbackTimerRef st7)
                                       \<lparr> timer_duration := totalDuration,
                                         timer_startTime := startTime \<rparr> \<rparr>;
                           (gainNode, st9) = getGainNode st8;
                           st10 = updCtx (\<lambda>c. c\<lparr> sourceNodes := setLastOnended
                                     (snd (scheduleBuffers startTime audioBuffers (sourceNodes c))) \<rparr>) st9;
                           st11 = st10\<lparr> isPlaying := True, isStitching := False \<rparr>
                       in (None, snd (updatePlaybackTime st11))))))"

text \<open>The completion callback of the last source: \<open>stopPlayback()\<close>, then \<open>close()\<close>.\<close>

definition lastSourceEnded :: "('t::zero) stitchAudio \<Rightarrow> error option \<times> 't stitchAudio" where
  "lastSourceEnded st =
     (case stopPlayback st of
        (Some e, st1) \<Rightarrow> (Some e, st1)
      | (None, st1) \<Rightarrow>
          (case audioCtxRef st1 of
             None \<Rightarrow> (None, st1)
           | Some c \<Rightarrow> if ctx_state c = Closed then (Some InvalidStateError, st1)
                       else (None, updCtx (\<lambda>c. c\<lparr> ctx_state := Closed \<rparr>) st1)))"

definition handleVolumeChange :: "real \<Rightarrow> 't stitchAudio \<Rightarrow> 't stitchAudio" where
  "handleVolumeChange newVolume st =
     (let st1 = st\<lparr> playbackTimerRef := (playbackTimerRef st)\<lparr> timer_volume := newVolume \<rparr> \<rparr>
      in case gainNodeRef st1 of
           None \<Rightarrow> st1
         | Some g \<Rightarrow> st1\<lparr> gainNodeRef := Some (g\<lparr> gain_value := newVolume / 100 \<rparr>) \<rparr>)"

text \<open>
  The effect on \<open>folders\<close>: it runs with the number of catalog entries whenever the
  catalog list changes.
\<close>

definition foldersEffect :: "nat \<Rightarrow> ('t::zero) stitchAudio \<Rightarrow> 't stitchAudio" where
  "foldersEffect foldersLength st =
     (if timer_filesLen (playbackTimerRef st) = 0
         \<or> foldersLength = timer_filesLen (playbackTimerRef st)
      then st else endPlayback st)"

text \<open>The audio clock advances only while its context runs.\<close>

definition advanceClock :: "('t::plus) \<Rightarrow> 't stitchAudio \<Rightarrow> 't stitchAudio" where
  "advanceClock dt st =
     updCtx (\<lambda>c. if ctx_state c = Running then c\<lparr> currentTime := currentTime c + dt \<rparr> else c) st"

text \<open>
  Observations of the audio graph: the sources started on the current context (none
  before a context exists), the gain of the referenced gain stage, and the reading of the
  audio clock.
\<close>

definition scheduledNodes :: "'t stitchAudio \<Rightarrow> 't sourceNode list" where
  "scheduledNodes st = (case audioCtxRef st of None \<Rightarrow> [] | Some c \<Rightarrow> sourceNodes c)"

definition sessionGain :: "'t stitchAudio \<Rightarrow> real option" where
  "sessionGain st = map_option gain_value (gainNodeRef st)"

definition audioClock :: "'t stitchAudio \<Rightarrow> 't option" where
  "audioClock st = map_option currentTime (audioCtxRef st)"

text \<open>
  The states the component can be in: it is mounted, and then its callbacks run in any
  order. The platform hands \<open>decodeAudioData\<close> buffers of non-negative duration, moves
  the audio clock, and may change the state in which new contexts start.
\<close>

inductive reachable :: "('t::{zero,plus,minus,ord}) stitchAudio \<Rightarrow> bool" where
  mount: "reachable (initialStitchAudio s0)"
| play: "reachable st \<Longrightarrow> (\<And>b buf. decode b = Some buf \<Longrightarrow> 0 \<le> duration buf) \<Longrightarrow>
         reachable (snd (onPlayClick files decode t0 st))"
| tick: "reachable st \<Longrightarrow> reachable (snd (updatePlaybackTime st))"
| stop: "reachable st \<Longrightarrow> reachable (snd (stopPlayback st))"
| finish: "reachable st \<Longrightarrow> reachable (endPlayback st)"
| ended: "reachable st \<Longrightarrow> reachable (snd (lastSourceEnded st))"
| volume: "reachable st \<Longrightarrow> reachable (handleVolumeChange v st)"
| folders: "reachable st \<Longrightarrow> reachable (foldersEffect n st)"
| clock: "reachable st \<Longrightarrow> reachable (advanceClock dt st)"
| policy: "reachable st \<Longrightarrow> reachable (st\<lparr> newCtxState := s \<rparr>)"

section \<open>Auxiliary notions of the proofs\<close>

text \<open>The start offsets that the scheduling loop hands to \<open>source.start\<close>, one per buffer.\<close>

fun startOffsets :: "('t::plus) \<Rightarrow> 't audioBuffer list \<Rightarrow> 't list" where
  "startOffsets s [] = []"
| "startOffsets s (b # bs) = s # startOffsets (s + duration b) bs"

text \<open>
  The invariant behind the bound on the reported time: it lies between zero and the
  displayed duration, which is the duration the polling loop compares with.
\<close>

definition timeInv :: "('t::{zero,ord}) stitchAudio \<Rightarrow> bool" where
  "timeInv st \<longleftrightarrow> 0 \<le> currTime st \<and> currTime st \<le> durationState st
      \<and> timer_duration (playbackTimerRef st) = durationState st"

text \<open>
  Along a chain of names every directory is there; and one file system keeps the
  directories of another.
\<close>

fun walkable :: "fileSystem \<Rightarrow> handle \<Rightarrow> string list \<Rightarrow> bool" where
  "walkable fs dir [] = True"
| "walkable fs dir (part # parts) =
     (validFileName part \<and> isDirectory fs dir \<and> map_of fs (dir @ [part]) = Some DirEntry
      \<and> walkable fs (dir @ [part]) parts)"

definition dirsKept :: "fileSystem \<Rightarrow> fileSystem \<Rightarrow> bool" where
  "dirsKept fs fs' \<longleftrightarrow> (\<forall>p. map_of fs p = Some DirEntry \<longrightarrow> map_of fs' p = Some DirEntry)"

text \<open>
  A store that is initialised at the root, or that will initialise on its next call.
\<close>

definition usable :: "opfsStorage \<Rightarrow> bool" where
  "usable s \<longleftrightarrow>
     rootDir s = Some [] \<or>
     (rootDir s = None \<and> initPromise s = None \<and> getExecutionContext s \<noteq> Unknown
      \<and> getDirectoryDefined s)"

text \<open>
  Along a chain of names below a directory, no name is taken by a file.
\<close>

fun noFileAlong :: "fileSystem \<Rightarrow> handle \<Rightarrow> string list \<Rightarrow> bool" where
  "noFileAlong fs dir [] = True"
| "noFileAlong fs dir (part # parts) =
     ((case map_of fs (dir @ [part]) of Some (FileEntry content) \<Rightarrow> False | _ \<Rightarrow> True)
      \<and> noFileAlong fs (dir @ [part]) parts)"

subsection \<open>Concrete inputs\<close>

text \<open>Two payloads that decode to buffers of 1.5 and 2.5 seconds, and one that does not decode.\<close>

definition demoMetadata :: "string \<Rightarrow> int \<Rightarrow> AudioMetadata" where
  "demoMetadata n t =
     \<lparr> md_name = n, md_folderName = n, md_fileName = n @ ''.mp3'', md_color = ''hsl(0, 70%, 50%)'',
       md_cover = ''cover.jpg'', md_size = 1, md_mimeType = StringValue ''audio/mpeg'', md_duration = None,
       md_uploadedAt = t, md_lastModified = 0 \<rparr>"

definition demoFiles :: "fileEntry list" where
  "demoFiles = [\<lparr> fe_metadata = demoMetadata ''b'' 2, fe_buffer = [1] \<rparr>,
                \<lparr> fe_metadata = demoMetadata ''a'' 1, fe_buffer = [2] \<rparr>]"

definition brokenFiles :: "fileEntry list" where
  "brokenFiles = [\<lparr> fe_metadata = demoMetadata ''b'' 2, fe_buffer = [1] \<rparr>,
                  \<lparr> fe_metadata = demoMetadata ''a'' 1, fe_buffer = [3] \<rparr>]"

definition demoBuffers :: "real audioBuffer list" where
  "demoBuffers = [\<lparr> duration = 3 / 2, channelData = [] \<rparr>,
                  \<lparr> duration = 5 / 2, channelData = [] \<rparr>]"

definition demoDecode :: "bytes \<Rightarrow> real audioBuffer option" where
  "demoDecode payload =
     (if payload = [1] then Some \<lparr> duration = 3 / 2, channelData = [] \<rparr>
      else if payload = [2] then Some \<lparr> duration = 5 / 2, channelData = [] \<rparr>
      else None)"

definition mounted :: "real stitchAudio" where
  "mounted = initialStitchAudio Running"

definition playing :: "real stitchAudio" where
  "playing = snd (onPlayClick (Inr demoFiles) demoDecode 0 mounted)"

text \<open>
  A file system with one folder holding one file, seen from a foreground page and from a
  worker.
\<close>

definition demoFs :: fileSystem where
  "demoFs = [([''a''], DirEntry), ([''a'', ''f.txt''], FileEntry [9, 9, 9])]"

definition windowStore :: opfsStorage where
  "windowStore = initialStorage False True True demoFs"

definition workerStore :: opfsStorage where
  "workerStore = initialStorage True False True demoFs"

text \<open>
  A parser that accepts every non-empty text and takes the upload time from its length, and
  a store with a complete entry \<open>a\<close> and an entry \<open>b\<close> whose sidecar is not there yet.
\<close>

definition demoParse :: "string \<Rightarrow> error + AudioMetadata" where
  "demoParse text =
     (if text = [] then Inl JsonSyntaxError else Inr (demoMetadata ''entry'' (int (length text))))"

definition halfUploadedFs :: fileSystem where
  "halfUploadedFs =
     [([''a''], DirEntry), ([''a'', ''a.mp3''], FileEntry [1]), ([''a'', ''metadata.json''], FileEntry [7, 7]),
      ([''b''], DirEntry), ([''b'', ''b.mp3''], FileEntry [2])]"

definition halfUploadedStore :: opfsStorage where
  "halfUploadedStore = initialStorage False True True halfUploadedFs"

text \<open>The same store once the second sidecar is written.\<close>

definition uploadedStore :: opfsStorage where
  "uploadedStore = initialStorage False True True
     (halfUploadedFs @ [([''b'', ''metadata.json''], FileEntry [7, 7, 7])])"

text \<open>An empty store in a foreground page, and two audio files to upload.\<close>

definition emptyStore :: opfsStorage where
  "emptyStore = initialStorage False True True []"

definition demoEnv :: uploadEnv where
  "demoEnv = \<lparr> env_now = 1700000000000, env_color = ''hsl(10, 75%, 55%)'',
               env_origin = ''https://example.org'' \<rparr>"

definition demoStringify :: "AudioMetadata \<Rightarrow> string" where
  "demoStringify metadata = ''{ fileName: '' @ md_fileName metadata @ '' }''"

definition songMp3 :: File where
  "songMp3 = \<lparr> file_name = ''song.mp3'', file_type = ''audio/mpeg'', file_size = 3,
               file_lastModified = 0, file_content = [1, 2, 3] \<rparr>"

definition songWav :: File where
  "songWav = \<lparr> file_name = ''song.wav'', file_type = ''audio/wav'', file_size = 2,
               file_lastModified = 0, file_content = [4, 5] \<rparr>"

section \<open>Properties of the playback component\<close>

lemmas playback_defs =
  onPlayClick_def endPlayback_def stopPlayback_def updatePlaybackTime_def getAudioContext_def
  getGainNode_def cancelAnimation_def createNewAudioContext_def freshAudioContext_def updCtx_def
  handleVolumeChange_def foldersEffect_def advanceClock_def lastSourceEnded_def
  initialStitchAudio_def scheduledNodes_def sessionGain_def audioClock_def setLastOnended_def

lemmas demo_defs =
  demoFiles_def demoBuffers_def demoDecode_def demoMetadata_def mounted_def

subsection \<open>The scheduling loop\<close>

lemma scheduleBuffers_nodes:
  "snd (scheduleBuffers s bs nodes) =
     nodes @ map (\<lambda>(b, t). \<lparr> buffer = b, startAt = t, onended = False \<rparr>) (zip bs (startOffsets s bs))"
  by (induction bs arbitrary: s nodes) simp_all

lemma length_startOffsets [simp]: "length (startOffsets s bs) = length bs"
  by (induction bs arbitrary: s) simp_all

lemma startOffsets_0: "bs \<noteq> [] \<Longrightarrow> startOffsets s bs ! 0 = s"
  by (cases bs) simp_all

lemma startOffsets_Suc:
  "Suc i < length bs \<Longrightarrow> startOffsets s bs ! Suc i = startOffsets s bs ! i + duration (bs ! i)"
proof (induction bs arbitrary: s i)
  case Nil
  then show ?case by simp
next
  case (Cons b bs)
  show ?case
  proof (cases i)
    case 0
    with Cons.prems show ?thesis by (cases bs) simp_all
  next
    case (Suc j)
    with Cons.prems have "Suc j < length bs" by simp
    from Cons.IH [OF this] Suc show ?thesis by simp
  qed
qed

lemma map_startAt_setLastOnended: "map startAt (setLastOnended ns) = map startAt ns"
proof (cases "ns = []")
  case True
  then show ?thesis by (simp add: setLastOnended_def)
next
  case False
  then have "map startAt ns = map startAt (butlast ns @ [last ns])" by simp
  then show ?thesis using False by (simp add: setLastOnended_def del: append_butlast_last_id)
qed

lemma map_buffer_setLastOnended: "map buffer (setLastOnended ns) = map buffer ns"
proof (cases "ns = []")
  case True
  then show ?thesis by (simp add: setLastOnended_def)
next
  case False
  then have "map buffer ns = map buffer (butlast ns @ [last ns])" by simp
  then show ?thesis using False by (simp add: setLastOnended_def del: append_butlast_last_id)
qed

lemma scheduled_startAt:
  "map startAt (setLastOnended (snd (scheduleBuffers s bs []))) = startOffsets s bs"
  by (simp add: map_startAt_setLastOnended scheduleBuffers_nodes map_idI split_def o_def)

lemma scheduled_buffer:
  "map buffer (setLastOnended (snd (scheduleBuffers s bs []))) = bs"
  by (simp add: map_buffer_setLastOnended scheduleBuffers_nodes split_def o_def)

lemma foldl_duration: "foldl (\<lambda>sum b. sum + duration b) z bufs = foldl (+) z (map duration bufs)"
  by (induction bufs arbitrary: z) simp_all

text \<open>In a monoid the left-to-right sum of the source is the sum of the list.\<close>

lemma foldl_plus_sum_list:
  fixes z :: "'t::monoid_add"
  shows "foldl (+) z ds = z + sum_list ds"
  by (induction ds arbitrary: z) (simp_all add: add.assoc)

subsection \<open>What a tick leaves alone\<close>

lemma updatePlaybackTime_frame:
  "playbackTimerRef (snd (updatePlaybackTime st)) = playbackTimerRef st"
  "gainNodeRef (snd (updatePlaybackTime st)) = gainNodeRef st"
  "durationState (snd (updatePlaybackTime st)) = durationState st"
  "isStitching (snd (updatePlaybackTime st)) = isStitching st"
  by (simp_all add: updatePlaybackTime_def stopPlayback_def getAudioContext_def cancelAnimation_def
      createNewAudioContext_def updCtx_def Let_def split: option.splits prod.splits)

lemma updatePlaybackTime_nodes:
  "scheduledNodes (snd (updatePlaybackTime st)) = scheduledNodes st"
  by (simp add: scheduledNodes_def updatePlaybackTime_def stopPlayback_def getAudioContext_def
      cancelAnimation_def createNewAudioContext_def freshAudioContext_def updCtx_def Let_def
      split: option.splits prod.splits)

lemma updatePlaybackTime_clock:
  "audioCtxRef st \<noteq> None \<Longrightarrow> audioClock (snd (updatePlaybackTime st)) = audioClock st"
  by (auto simp add: audioClock_def updatePlaybackTime_def stopPlayback_def getAudioContext_def
      cancelAnimation_def createNewAudioContext_def freshAudioContext_def updCtx_def Let_def
      split: option.splits prod.splits)

subsection \<open>The preparation path of \<open>onPlayClick\<close>\<close>

lemma onPlayClick_prepare:
  fixes st :: "('t::{zero,plus,minus,ord}) stitchAudio"
  assumes "ctx_state (fst (getAudioContext st)) \<noteq> Suspended" and "\<not> isPlaying st"
    and "those (map (\<lambda>item. decode (fe_buffer item)) data) = Some bufs"
  shows "fst (onPlayClick (Inr data) decode t0 st) = None \<and>
    scheduledNodes (snd (onPlayClick (Inr data) decode t0 st)) =
           setLastOnended (snd (scheduleBuffers t0 bufs [])) \<and>
    audioClock (snd (onPlayClick (Inr data) decode t0 st)) = Some t0 \<and>
    gainNodeRef (snd (onPlayClick (Inr data) decode t0 st)) =
           Some \<lparr> gain_value = timer_volume (playbackTimerRef st) / 100 \<rparr> \<and>
    timer_duration (playbackTimerRef (snd (onPlayClick (Inr data) decode t0 st))) =
           foldl (\<lambda>sum b. sum + duration b) 0 bufs \<and>
    timer_startTime (playbackTimerRef (snd (onPlayClick (Inr data) decode t0 st))) = t0 \<and>
    timer_volume (playbackTimerRef (snd (onPlayClick (Inr data) decode t0 st))) =
           timer_volume (playbackTimerRef st) \<and>
    timer_filesLen (playbackTimerRef (snd (onPlayClick (Inr data) decode t0 st))) = length data \<and>
    durationState (snd (onPlayClick (Inr data) decode t0 st)) =
           foldl (\<lambda>sum b. sum + duration b) 0 bufs \<and>
    \<not> isStitching (snd (onPlayClick (Inr data) decode t0 st))"
proof (cases "audioCtxRef st")
  case None
  with assms have "newCtxState st \<noteq> Suspended"
    by (simp add: getAudioContext_def freshAudioContext_def)
  with None assms(2,3) show ?thesis
    by (simp add: onPlayClick_def endPlayback_def getAudioContext_def getGainNode_def
      cancelAnimation_def createNewAudioContext_def freshAudioContext_def updCtx_def Let_def
      updatePlaybackTime_frame updatePlaybackTime_nodes updatePlaybackTime_clock)
       (simp add: scheduledNodes_def audioClock_def)
next
  case (Some c)
  with assms have "ctx_state c \<noteq> Suspended"
    by (simp add: getAudioContext_def)
  with Some assms(2,3) show ?thesis
    by (simp add: onPlayClick_def endPlayback_def getAudioContext_def getGainNode_def
      cancelAnimation_def createNewAudioContext_def freshAudioContext_def updCtx_def Let_def
      updatePlaybackTime_frame updatePlaybackTime_nodes updatePlaybackTime_clock)
       (simp add: scheduledNodes_def audioClock_def)
qed

lemma onPlayClick_decode_failure:
  fixes st :: "('t::{zero,plus,minus,ord}) stitchAudio"
  assumes "ctx_state (fst (getAudioContext st)) \<noteq> Suspended" and "\<not> isPlaying st"
    and "those (map (\<lambda>item. decode (fe_buffer item)) data) = None"
  shows "fst (onPlayClick (Inr data) decode t0 st) = Some EncodingError \<and>
    scheduledNodes (snd (onPlayClick (Inr data) decode t0 st)) = [] \<and>
    \<not> isPlaying (snd (onPlayClick (Inr data) decode t0 st)) \<and>
    isStitching (snd (onPlayClick (Inr data) decode t0 st)) \<and>
    timer_filesLen (playbackTimerRef (snd (onPlayClick (Inr data) decode t0 st))) = length data"
proof (cases "audioCtxRef st")
  case None
  with assms have "newCtxState st \<noteq> Suspended"
    by (simp add: getAudioContext_def freshAudioContext_def)
  with None assms(2,3) show ?thesis
    by (simp add: onPlayClick_def endPlayback_def getAudioContext_def scheduledNodes_def
      cancelAnimation_def createNewAudioContext_def freshAudioContext_def updCtx_def Let_def)
next
  case (Some c)
  with assms have "ctx_state c \<noteq> Suspended"
    by (simp add: getAudioContext_def)
  with Some assms(2,3) show ?thesis
    by (simp add: onPlayClick_def endPlayback_def getAudioContext_def scheduledNodes_def
      cancelAnimation_def createNewAudioContext_def freshAudioContext_def updCtx_def Let_def)
qed

lemma demo_decodes: "those (map (\<lambda>item. demoDecode (fe_buffer item)) demoFiles) = Some demoBuffers"
  by (simp add: demo_defs)

lemma broken_decodes: "those (map (\<lambda>item. demoDecode (fe_buffer item)) brokenFiles) = None"
  by (simp add: brokenFiles_def demoDecode_def)

lemma mounted_ready: "ctx_state (fst (getAudioContext mounted)) \<noteq> Suspended \<and> \<not> isPlaying mounted"
  by (simp add: mounted_def initialStitchAudio_def getAudioContext_def freshAudioContext_def)

text \<open>
  C1. A session prepared from the decoded buffers \<open>b1..bn\<close> starts the first buffer at the
  audio-clock time \<open>t0\<close> read at preparation, starts buffer \<open>i+1\<close> at the start of buffer
  \<open>i\<close> plus the duration of buffer \<open>i\<close>, and has as total duration the sum
  \<open>0 + d1 + ... + dn\<close> of the durations, added from left to right as the source adds them.
  The statement holds for every interpretation of \<open>+\<close> and \<open>0\<close> on the time type.
\<close>

theorem gapless_timeline:
  fixes st :: "('t::{zero,plus,minus,ord}) stitchAudio"
  assumes "ctx_state (fst (getAudioContext st)) \<noteq> Suspended" and "\<not> isPlaying st"
    and "those (map (\<lambda>item. decode (fe_buffer item)) data) = Some bufs"
    and "onPlayClick (Inr data) decode t0 st = (r, st')"
  shows "r = None \<and> map buffer (scheduledNodes st') = bufs
    \<and> audioClock st' = Some t0
    \<and> (bufs \<noteq> [] \<longrightarrow> startAt (scheduledNodes st' ! 0) = t0)
    \<and> (\<forall>i. Suc i < length bufs \<longrightarrow>
          startAt (scheduledNodes st' ! Suc i) = startAt (scheduledNodes st' ! i) + duration (bufs ! i))
    \<and> timer_startTime (playbackTimerRef st') = t0
    \<and> timer_duration (playbackTimerRef st') = foldl (+) 0 (map duration bufs)
    \<and> durationState st' = foldl (+) 0 (map duration bufs)"
proof -
  from assms(4) have r: "r = fst (onPlayClick (Inr data) decode t0 st)"
    and st': "st' = snd (onPlayClick (Inr data) decode t0 st)" by simp_all
  note P = onPlayClick_prepare [OF assms(1-3), of t0, folded r st']
  from P have nodes: "scheduledNodes st' = setLastOnended (snd (scheduleBuffers t0 bufs []))"
    by simp
  have len: "length (scheduledNodes st') = length bufs"
    using scheduled_buffer [of t0 bufs] nodes by (metis length_map)
  have starts: "map startAt (scheduledNodes st') = startOffsets t0 bufs"
    by (simp add: nodes scheduled_startAt)
  have nth: "startAt (scheduledNodes st' ! i) = startOffsets t0 bufs ! i" if "i < length bufs" for i
    using that len starts by (metis nth_map)
  have first: "bufs \<noteq> [] \<longrightarrow> startAt (scheduledNodes st' ! 0) = t0"
    using nth [of 0] startOffsets_0 [of bufs t0] by simp
  have step: "\<forall>i. Suc i < length bufs \<longrightarrow>
      startAt (scheduledNodes st' ! Suc i) = startAt (scheduledNodes st' ! i) + duration (bufs ! i)"
    using nth startOffsets_Suc [of _ bufs t0] by simp
  show ?thesis
    using P first step by (simp add: nodes scheduled_buffer foldl_duration)
qed

theorem gapless_timeline_witness:
  "ctx_state (fst (getAudioContext mounted)) \<noteq> Suspended \<and> \<not> isPlaying mounted
   \<and> those (map (\<lambda>item. demoDecode (fe_buffer item)) demoFiles) = Some demoBuffers
   \<and> fst (onPlayClick (Inr demoFiles) demoDecode (1 / 4) mounted) = None
   \<and> startAt (scheduledNodes (snd (onPlayClick (Inr demoFiles) demoDecode (1 / 4) mounted)) ! 0) = 1 / 4
   \<and> startAt (scheduledNodes (snd (onPlayClick (Inr demoFiles) demoDecode (1 / 4) mounted)) ! 1) = 7 / 4
   \<and> durationState (snd (onPlayClick (Inr demoFiles) demoDecode (1 / 4) mounted)) = 4"
proof -
  let ?run = "onPlayClick (Inr demoFiles) demoDecode (1 / 4) mounted"
  have ready: "ctx_state (fst (getAudioContext mounted)) \<noteq> Suspended" "\<not> isPlaying mounted"
    using mounted_ready by simp_all
  have run: "?run = (fst ?run, snd ?run)" by simp
  note T = gapless_timeline [OF ready demo_decodes run]
  from T have "startAt (scheduledNodes (snd ?run) ! 0) = 1 / 4"
    by (simp add: demoBuffers_def)
  moreover from T have "startAt (scheduledNodes (snd ?run) ! Suc 0) =
      startAt (scheduledNodes (snd ?run) ! 0) + duration (demoBuffers ! 0)"
    by (simp add: demoBuffers_def)
  moreover from T have "durationState (snd ?run) = 4" by (simp add: demoBuffers_def)
  ultimately show ?thesis using T ready demo_decodes by (simp add: demoBuffers_def)
qed

text \<open>
  C4. A payload that does not decode rejects the preparation before anything is scheduled:
  no source is started and the component is not playing. The preparing flag, raised before
  the payloads are fetched, is not lowered on this path, and the tracked entry count keeps
  the number of fetched payloads. Evaluated here on two payloads of which the second does
  not decode.
\<close>

theorem decode_failure_leaves_stitching:
  "fst (onPlayClick (Inr brokenFiles) demoDecode 0 mounted) = Some EncodingError
   \<and> scheduledNodes (snd (onPlayClick (Inr brokenFiles) demoDecode 0 mounted)) = []
   \<and> \<not> isPlaying (snd (onPlayClick (Inr brokenFiles) demoDecode 0 mounted))
   \<and> isStitching (snd (onPlayClick (Inr brokenFiles) demoDecode 0 mounted))
   \<and> timer_filesLen (playbackTimerRef (snd (onPlayClick (Inr brokenFiles) demoDecode 0 mounted))) = 2"
  using onPlayClick_decode_failure [of mounted demoDecode brokenFiles 0] mounted_ready broken_decodes
  by (simp add: brokenFiles_def)

text \<open>
  C10. \<open>stopPlayback\<close> and \<open>endPlayback\<close> leave the stored volume as it is; the volume is
  80 at mount and is what \<open>handleVolumeChange\<close> last stored; and the gain stage created by
  the next preparation starts at that volume divided by 100.
\<close>

theorem volume_survives_stop_and_end:
  fixes st :: "('t::{zero,plus,minus,ord}) stitchAudio"
  shows "timer_volume (playbackTimerRef (snd (stopPlayback st))) = timer_volume (playbackTimerRef st)
   \<and> timer_volume (playbackTimerRef (endPlayback st)) = timer_volume (playbackTimerRef st)
   \<and> timer_volume (playbackTimerRef (handleVolumeChange v st)) = v
   \<and> timer_volume (playbackTimerRef (initialStitchAudio s0 :: 't stitchAudio)) = 80
   \<and> (ctx_state (fst (getAudioContext st)) \<noteq> Suspended \<and> \<not> isPlaying st
        \<and> those (map (\<lambda>item. decode (fe_buffer item)) data) = Some bufs \<longrightarrow>
      sessionGain (snd (onPlayClick (Inr data) decode t0 st)) =
        Some (timer_volume (playbackTimerRef st) / 100))"
proof -
  have stop: "timer_volume (playbackTimerRef (snd (stopPlayback st))) = timer_volume (playbackTimerRef st)"
    by (simp add: stopPlayback_def getAudioContext_def cancelAnimation_def
        createNewAudioContext_def updCtx_def Let_def split: option.splits)
  have finish: "timer_volume (playbackTimerRef (endPlayback st)) = timer_volume (playbackTimerRef st)"
    by (simp add: endPlayback_def cancelAnimation_def createNewAudioContext_def updCtx_def Let_def
        split: option.splits)
  have set: "timer_volume (playbackTimerRef (handleVolumeChange v st)) = v"
    by (simp add: handleVolumeChange_def Let_def split: option.splits)
  have init: "timer_volume (playbackTimerRef (initialStitchAudio s0 :: 't stitchAudio)) = 80"
    by (simp add: initialStitchAudio_def)
  have next_session: "sessionGain (snd (onPlayClick (Inr data) decode t0 st)) =
        Some (timer_volume (playbackTimerRef st) / 100)"
    if "ctx_state (fst (getAudioContext st)) \<noteq> Suspended" "\<not> isPlaying st"
       "those (map (\<lambda>item. decode (fe_buffer item)) data) = Some bufs"
    using onPlayClick_prepare [OF that, of t0] by (simp add: sessionGain_def)
  from stop finish set init next_session show ?thesis by blast
qed

theorem volume_survives_stop_and_end_witness:
  "timer_volume (playbackTimerRef (endPlayback (snd (stopPlayback (handleVolumeChange 35 mounted))))) = 35
   \<and> ctx_state (fst (getAudioContext (endPlayback (snd (stopPlayback (handleVolumeChange 35 mounted))))))
       \<noteq> Suspended
   \<and> \<not> isPlaying (endPlayback (snd (stopPlayback (handleVolumeChange 35 mounted))))
   \<and> those (map (\<lambda>item. demoDecode (fe_buffer item)) demoFiles) = Some demoBuffers
   \<and> sessionGain (snd (onPlayClick (Inr demoFiles) demoDecode 0
        (endPlayback (snd (stopPlayback (handleVolumeChange 35 mounted)))))) = Some (35 / 100)"
proof -
  let ?S = "endPlayback (snd (stopPlayback (handleVolumeChange 35 mounted)))"
  have vol: "timer_volume (playbackTimerRef ?S) = 35"
    using volume_survives_stop_and_end [of "handleVolumeChange 35 mounted"]
      volume_survives_stop_and_end [of "snd (stopPlayback (handleVolumeChange 35 mounted))"]
      volume_survives_stop_and_end [of mounted 35]
    by simp
  have ready: "ctx_state (fst (getAudioContext ?S)) \<noteq> Suspended \<and> \<not> isPlaying ?S"
    by (simp add: playback_defs mounted_def Let_def)
  from volume_survives_stop_and_end
         [where st = ?S and decode = demoDecode and data = demoFiles and bufs = demoBuffers and ?t0.0 = 0]
       ready demo_decodes vol
  show ?thesis by auto
qed

subsection \<open>The reported time stays within the session\<close>

lemma stopPlayback_inv: "timeInv st \<Longrightarrow> timeInv (snd (stopPlayback st))"
  by (auto simp add: timeInv_def stopPlayback_def getAudioContext_def cancelAnimation_def
      createNewAudioContext_def updCtx_def Let_def split: option.splits)

lemma endPlayback_inv:
  fixes st :: "('t::{zero,preorder}) stitchAudio"
  shows "timeInv (endPlayback st)"
  by (simp add: timeInv_def endPlayback_def cancelAnimation_def
      createNewAudioContext_def updCtx_def Let_def split: option.splits)

lemma updatePlaybackTime_inv:
  fixes st :: "('t::{zero,minus,preorder}) stitchAudio"
  shows "timeInv st \<Longrightarrow> timeInv (snd (updatePlaybackTime st))"
  by (auto simp add: timeInv_def updatePlaybackTime_def stopPlayback_def getAudioContext_def
      cancelAnimation_def createNewAudioContext_def updCtx_def Let_def split: option.splits)

lemma foldl_nonneg:
  fixes z :: "'t::ordered_comm_monoid_add"
  shows "0 \<le> z \<Longrightarrow> (\<And>b. b \<in> set bufs \<Longrightarrow> 0 \<le> duration b) \<Longrightarrow>
     0 \<le> foldl (\<lambda>sum b. sum + duration b) z bufs"
  by (induction bufs arbitrary: z) (simp_all add: add_nonneg_nonneg)

lemma those_map_set: "those (map f xs) = Some ys \<Longrightarrow> y \<in> set ys \<Longrightarrow> \<exists>x. f x = Some y"
  by (induction xs arbitrary: ys) (auto split: option.splits)

lemma onPlayClick_inv:
  fixes st :: "('t::{ordered_comm_monoid_add,minus}) stitchAudio"
  assumes "timeInv st" and dec: "\<And>b buf. decode b = Some buf \<Longrightarrow> 0 \<le> duration buf"
  shows "timeInv (snd (onPlayClick files decode t0 st))"
proof -
  have tot: "0 \<le> foldl (\<lambda>sum b. sum + duration b) 0 bufs"
    if "those (map (\<lambda>item. decode (fe_buffer item)) data) = Some bufs" for data bufs
    using that dec by (intro foldl_nonneg) (auto dest: those_map_set)
  show ?thesis
    using assms(1) tot
    apply (simp add: onPlayClick_def Let_def split: prod.splits sum.splits option.splits)
    apply (intro conjI impI allI updatePlaybackTime_inv stopPlayback_inv)
    apply (auto simp add: timeInv_def getAudioContext_def getGainNode_def endPlayback_def
        cancelAnimation_def createNewAudioContext_def updCtx_def Let_def split: option.splits)
    done
qed

lemma reachable_timeInv:
  fixes st :: "('t::{ordered_comm_monoid_add,minus}) stitchAudio"
  assumes "reachable st"
  shows "timeInv st"
  using assms
proof induction
  case (mount s0)
  show ?case by (simp add: timeInv_def initialStitchAudio_def)
next
  case (play st decode files t0)
  from play.IH play.hyps(2) show ?case by (rule onPlayClick_inv)
next
  case (tick st)
  from tick.IH show ?case by (rule updatePlaybackTime_inv)
next
  case (stop st)
  from stop.IH show ?case by (rule stopPlayback_inv)
next
  case (finish st)
  show ?case by (rule endPlayback_inv)
next
  case (ended st)
  then show ?case
    using stopPlayback_inv [of st]
    by (auto simp add: lastSourceEnded_def timeInv_def updCtx_def split: prod.splits option.splits)
next
  case (volume st v)
  then show ?case by (simp add: handleVolumeChange_def timeInv_def Let_def split: option.splits)
next
  case (folders st n)
  then show ?case using endPlayback_inv [of st] by (simp add: foldersEffect_def)
next
  case (clock st dt)
  then show ?case by (simp add: advanceClock_def updCtx_def timeInv_def)
next
  case (policy st s)
  then show ?case by (simp add: timeInv_def)
qed

lemma updatePlaybackTime_cases:
  fixes st :: "('t::{zero,minus,ord}) stitchAudio"
  shows "(timer_duration (playbackTimerRef st) < currentTime (fst (getAudioContext st)) - timer_startTime (playbackTimerRef st) \<longrightarrow>
        updatePlaybackTime st = stopPlayback (snd (getAudioContext st))
      \<and> \<not> isPlaying (snd (updatePlaybackTime st))
      \<and> currTime (snd (updatePlaybackTime st)) = currTime st)
   \<and> (\<not> timer_duration (playbackTimerRef st) < currentTime (fst (getAudioContext st)) - timer_startTime (playbackTimerRef st) \<longrightarrow>
        animationRef (snd (updatePlaybackTime st))
      \<and> isPlaying (snd (updatePlaybackTime st)) = isPlaying st
      \<and> currTime (snd (updatePlaybackTime st)) =
          (if currentTime (fst (getAudioContext st)) - timer_startTime (playbackTimerRef st)
                \<le> timer_duration (playbackTimerRef st)
              \<and> 0 \<le> currentTime (fst (getAudioContext st)) - timer_startTime (playbackTimerRef st)
           then currentTime (fst (getAudioContext st)) - timer_startTime (playbackTimerRef st)
           else currTime st))"
  by (simp add: updatePlaybackTime_def stopPlayback_def getAudioContext_def cancelAnimation_def
      createNewAudioContext_def freshAudioContext_def updCtx_def Let_def split: option.splits)

text \<open>
  C9. In every state the component can reach, the reported current time lies between zero
  and the session's total duration. A tick of the polling loop computes the elapsed time
  as the audio clock minus the session's start time; when it exceeds the total duration the
  tick is \<open>stopPlayback\<close> and reports nothing; otherwise it reports the elapsed time if that
  lies between zero and the total duration, keeps the reported time if not, and
  registers the next frame callback.
\<close>

theorem current_time_within_duration:
  fixes st :: "('t::{ordered_comm_monoid_add,minus}) stitchAudio"
  assumes "reachable st"
  shows "0 \<le> currTime st \<and> currTime st \<le> durationState st
   \<and> durationState st = timer_duration (playbackTimerRef st)
   \<and> (timer_duration (playbackTimerRef st) < currentTime (fst (getAudioContext st)) - timer_startTime (playbackTimerRef st) \<longrightarrow>
        updatePlaybackTime st = stopPlayback (snd (getAudioContext st))
      \<and> \<not> isPlaying (snd (updatePlaybackTime st))
      \<and> currTime (snd (updatePlaybackTime st)) = currTime st)
   \<and> (\<not> timer_duration (playbackTimerRef st) < currentTime (fst (getAudioContext st)) - timer_startTime (playbackTimerRef st) \<longrightarrow>
        animationRef (snd (updatePlaybackTime st))
      \<and> currTime (snd (updatePlaybackTime st)) =
          (if currentTime (fst (getAudioContext st)) - timer_startTime (playbackTimerRef st)
                \<le> timer_duration (playbackTimerRef st)
              \<and> 0 \<le> currentTime (fst (getAudioContext st)) - timer_startTime (playbackTimerRef st)
           then currentTime (fst (getAudioContext st)) - timer_startTime (playbackTimerRef st)
           else currTime st))
   \<and> 0 \<le> currTime (snd (updatePlaybackTime st))
   \<and> currTime (snd (updatePlaybackTime st)) \<le> durationState (snd (updatePlaybackTime st))"
proof -
  from assms have inv: "timeInv st" by (rule reachable_timeInv)
  from inv have after: "timeInv (snd (updatePlaybackTime st))" by (rule updatePlaybackTime_inv)
  from inv have now: "0 \<le> currTime st" "currTime st \<le> durationState st"
      "durationState st = timer_duration (playbackTimerRef st)"
    by (simp_all add: timeInv_def)
  from after have next_tick: "0 \<le> currTime (snd (updatePlaybackTime st))"
      "currTime (snd (updatePlaybackTime st)) \<le> durationState (snd (updatePlaybackTime st))"
    by (simp_all add: timeInv_def)
  from now next_tick updatePlaybackTime_cases [of st] show ?thesis
    by blast
qed

lemma reachable_playing: "reachable playing"
proof -
  have "reachable mounted" by (simp add: mounted_def reachable.mount)
  moreover have "0 \<le> duration buf" if "demoDecode b = Some buf" for b buf
    using that by (auto simp add: demoDecode_def split: if_splits)
  ultimately show ?thesis unfolding playing_def by (rule reachable.play)
qed

lemma playing_state:
  "audioCtxRef playing =
     Some \<lparr> ctx_state = Running, currentTime = 0,
            sourceNodes = [\<lparr> buffer = \<lparr> duration = 3 / 2, channelData = [] \<rparr>, startAt = 0, onended = False \<rparr>,
                           \<lparr> buffer = \<lparr> duration = 5 / 2, channelData = [] \<rparr>, startAt = 3 / 2, onended = True \<rparr>] \<rparr>"
  "timer_startTime (playbackTimerRef playing) = 0"
  "timer_duration (playbackTimerRef playing) = 4"
  "durationState playing = 4"
  "currTime playing = 0" "isPlaying playing"
  "timer_filesLen (playbackTimerRef playing) = 2"
  by (simp_all add: playing_def playback_defs demo_defs Let_def)

theorem current_time_within_duration_witness:
  "reachable (advanceClock 1 playing)
   \<and> currTime (snd (updatePlaybackTime (advanceClock 1 playing))) = 1
   \<and> durationState (snd (updatePlaybackTime (advanceClock 1 playing))) = 4
   \<and> reachable (advanceClock 5 playing)
   \<and> currTime (snd (updatePlaybackTime (advanceClock 5 playing))) = 0
   \<and> \<not> isPlaying (snd (updatePlaybackTime (advanceClock 5 playing)))"
proof -
  have r1: "reachable (advanceClock 1 playing)" and r5: "reachable (advanceClock 5 playing)"
    using reachable_playing by (rule reachable.clock)+
  have s1: "currentTime (fst (getAudioContext (advanceClock 1 playing)))
              - timer_startTime (playbackTimerRef (advanceClock 1 playing)) = 1"
    "timer_duration (playbackTimerRef (advanceClock 1 playing)) = 4"
    "durationState (snd (updatePlaybackTime (advanceClock 1 playing))) = 4"
    using playing_state
    by (simp_all add: advanceClock_def updCtx_def getAudioContext_def updatePlaybackTime_frame
        current_time_within_duration [OF r1])
  have s5: "currentTime (fst (getAudioContext (advanceClock 5 playing)))
              - timer_startTime (playbackTimerRef (advanceClock 5 playing)) = 5"
    "timer_duration (playbackTimerRef (advanceClock 5 playing)) = 4"
    "currTime (advanceClock 5 playing) = 0"
    using playing_state
    by (simp_all add: advanceClock_def updCtx_def getAudioContext_def)
  from current_time_within_duration [OF r1] s1
  have a: "currTime (snd (updatePlaybackTime (advanceClock 1 playing))) = 1" by auto
  from current_time_within_duration [OF r5] s5
  have b: "currTime (snd (updatePlaybackTime (advanceClock 5 playing))) = 0
         \<and> \<not> isPlaying (snd (updatePlaybackTime (advanceClock 5 playing)))" by auto
  from r1 r5 a b s1 show ?thesis by simp
qed

subsection \<open>The catalog changes under a session\<close>




section \<open>Properties of the storage engine\<close>

lemma getDirectoryHandle_handle:
  "getDirectoryHandle c dir n fs = (Inr h, fs') \<Longrightarrow> h = dir @ [n]"
  by (auto simp add: getDirectoryHandle_def split: if_splits option.splits entry.splits)

lemma walk_handle:
  "walkDirectories c dir parts fs = (Inr h, fs') \<Longrightarrow> h = dir @ parts"
proof (induction parts arbitrary: dir fs)
  case Nil
  then show ?case by simp
next
  case (Cons part parts)
  from Cons.prems obtain h1 fs1 where
    g: "getDirectoryHandle c dir part fs = (Inr h1, fs1)"
    and w: "walkDirectories c h1 parts fs1 = (Inr h, fs')"
    by (auto split: prod.splits sum.splits)
  from getDirectoryHandle_handle [OF g] Cons.IH [OF w] show ?case by simp
qed

lemma dirsKept_refl: "dirsKept fs fs"
  by (simp add: dirsKept_def)

lemma dirsKept_trans: "dirsKept a b \<Longrightarrow> dirsKept b c \<Longrightarrow> dirsKept a c"
  by (simp add: dirsKept_def)

lemma dirsKept_update:
  "map_of fs p \<noteq> Some DirEntry \<Longrightarrow> dirsKept fs (AList.update p e fs)"
  by (auto simp add: dirsKept_def update_conv')

lemma isDirectory_kept: "dirsKept fs fs' \<Longrightarrow> isDirectory fs d \<Longrightarrow> isDirectory fs' d"
  by (auto simp add: dirsKept_def isDirectory_def)

lemma walkable_kept: "dirsKept fs fs' \<Longrightarrow> walkable fs d parts \<Longrightarrow> walkable fs' d parts"
proof (induction parts arbitrary: d)
  case Nil
  then show ?case by simp
next
  case (Cons part parts)
  from Cons.prems have "map_of fs' (d @ [part]) = Some DirEntry" by (simp add: dirsKept_def)
  with Cons show ?case by (simp add: isDirectory_kept)
qed

lemma getDirectoryHandle_kept:
  "getDirectoryHandle c dir n fs = (r, fs') \<Longrightarrow> dirsKept fs fs'"
  by (auto simp add: getDirectoryHandle_def dirsKept_refl dirsKept_update
      split: if_splits option.splits entry.splits)

lemma getDirectoryHandle_there:
  "getDirectoryHandle c dir n fs = (Inr h, fs') \<Longrightarrow>
     validFileName n \<and> isDirectory fs' dir \<and> map_of fs' (dir @ [n]) = Some DirEntry"
  by (auto simp add: getDirectoryHandle_def update_conv' isDirectory_def
      split: if_splits option.splits entry.splits)

lemma walk_kept: "walkDirectories c dir parts fs = (r, fs') \<Longrightarrow> dirsKept fs fs'"
proof (induction parts arbitrary: dir fs)
  case Nil
  then show ?case by (simp add: dirsKept_refl)
next
  case (Cons part parts)
  obtain r1 fs1 where g: "getDirectoryHandle c dir part fs = (r1, fs1)" by (cases "getDirectoryHandle c dir part fs")
  show ?case
  proof (cases r1)
    case (Inl e)
    with Cons.prems g have "fs' = fs1" by simp
    with getDirectoryHandle_kept [OF g] show ?thesis by simp
  next
    case (Inr h1)
    with Cons.prems g have "walkDirectories c h1 parts fs1 = (r, fs')" by simp
    from Cons.IH [OF this] getDirectoryHandle_kept [OF g] show ?thesis by (rule dirsKept_trans [rotated])
  qed
qed

lemma walk_walkable:
  "walkDirectories c dir parts fs = (Inr h, fs') \<Longrightarrow> walkable fs' dir parts"
proof (induction parts arbitrary: dir fs)
  case Nil
  then show ?case by simp
next
  case (Cons part parts)
  from Cons.prems obtain h1 fs1 where
    g: "getDirectoryHandle c dir part fs = (Inr h1, fs1)"
    and w: "walkDirectories c h1 parts fs1 = (Inr h, fs')"
    by (auto split: prod.splits sum.splits)
  have h1: "h1 = dir @ [part]" using g by (rule getDirectoryHandle_handle)
  from getDirectoryHandle_there [OF g] walk_kept [OF w]
  have "validFileName part \<and> isDirectory fs' dir \<and> map_of fs' (dir @ [part]) = Some DirEntry"
    by (auto simp add: dirsKept_def isDirectory_def)
  with Cons.IH [OF w] h1 show ?case by simp
qed

lemma walkable_walk:
  "walkable fs dir parts \<Longrightarrow> walkDirectories c dir parts fs = (Inr (dir @ parts), fs)"
  by (induction parts arbitrary: dir) (simp_all add: getDirectoryHandle_def)

lemma walk_isDirectory:
  "walkDirectories c dir parts fs = (Inr h, fs') \<Longrightarrow> isDirectory fs dir \<Longrightarrow> isDirectory fs' h"
proof (induction parts arbitrary: dir fs)
  case Nil
  then show ?case by simp
next
  case (Cons part parts)
  from Cons.prems obtain h1 fs1 where
    g: "getDirectoryHandle c dir part fs = (Inr h1, fs1)"
    and w: "walkDirectories c h1 parts fs1 = (Inr h, fs')"
    by (auto split: prod.splits sum.splits)
  from getDirectoryHandle_there [OF g] getDirectoryHandle_handle [OF g]
  have "isDirectory fs1 h1" by (simp add: isDirectory_def)
  with w show ?case by (rule Cons.IH)
qed


lemma ensureInit_ok:
  "ensureInit s = (None, s1) \<Longrightarrow>
     fileSystem s1 = fileSystem s \<and> dispatched s1 = dispatched s
     \<and> windowDefined s1 = windowDefined s \<and> workerGlobalScope s1 = workerGlobalScope s
     \<and> getDirectoryDefined s1 = getDirectoryDefined s"
  by (auto simp add: ensureInit_def Let_def split: if_splits option.splits promiseState.splits)

lemma ensureInit_initialised: "rootDir s \<noteq> None \<Longrightarrow> ensureInit s = (None, s)"
  by (simp add: ensureInit_def)

lemma getFileHandle_file:
  "getFileHandle c dir n fs = (Inr h, fs') \<Longrightarrow>
     h = dir @ [n] \<and> validFileName n \<and> isDirectory fs dir \<and> dirsKept fs fs'
     \<and> (\<exists>content. map_of fs' h = Some (FileEntry content))"
  by (auto simp add: getFileHandle_def update_conv' dirsKept_refl dirsKept_update
      split: if_splits option.splits entry.splits)

lemma toArrayBuffer_bytesOf: "toArrayBuffer data = bytesOf data"
  by (cases data) (simp_all add: slice_def)

lemma worker_write:
  "map_of fs h = Some (FileEntry old) \<Longrightarrow>
     syncWrite buf h (syncTruncate 0 h fs) = AList.update h (FileEntry buf) fs"
  by (simp add: syncWrite_def syncTruncate_def update_conv' truncateTo_def writeAtStart_def)

lemma window_write:
  "map_of fs h = Some (FileEntry old) \<Longrightarrow>
     streamReplace written h fs = AList.update h (FileEntry written) fs"
  by (simp add: streamReplace_def)

text \<open>What a successful \<open>saveFile\<close> has done.\<close>

lemma saveFile_success:
  assumes "saveFile path data s = (None, s')"
  shows "\<exists>s1 r fs1 fs3 content.
      ensureInit s = (None, s1) \<and> rootDir s1 = Some r \<and> pathParts path \<noteq> []
    \<and> walkDirectories True r (butlast (pathParts path)) (fileSystem s) =
          (Inr (r @ butlast (pathParts path)), fs1)
    \<and> getFileHandle True (r @ butlast (pathParts path)) (last (pathParts path)) fs1 =
          (Inr (r @ pathParts path), fs3)
    \<and> bytesOf data = Some content
    \<and> s' = emitChange \<lparr> change_type = FileAdded, change_path = path \<rparr>
              (s1\<lparr> fileSystem := AList.update (r @ pathParts path) (FileEntry content) fs3 \<rparr>)"
proof -
  from assms obtain s1 where i: "ensureInit s = (None, s1)"
    by (auto simp add: saveFile_def split: prod.splits option.splits)
  from assms i obtain r where r: "rootDir s1 = Some r"
    by (auto simp add: saveFile_def split: if_splits)
  from ensureInit_ok [OF i] have fs: "fileSystem s1 = fileSystem s" by simp
  let ?parts = "pathParts path"
  from assms i r have ne: "?parts \<noteq> []"
    by (auto simp add: saveFile_def ensureDirectory_def Let_def split: if_splits)
  from assms i r ne obtain d fs1 where
    w: "walkDirectories True r (butlast ?parts) (fileSystem s1) = (Inr d, fs1)"
    by (auto simp add: saveFile_def ensureDirectory_def Let_def split: prod.splits sum.splits)
  have d: "d = r @ butlast ?parts" using w by (rule walk_handle)
  from assms i r ne w obtain fh fs3 where
    g: "getFileHandle True d (last ?parts) fs1 = (Inr fh, fs3)"
    by (auto simp add: saveFile_def ensureDirectory_def Let_def split: prod.splits sum.splits)
  from getFileHandle_file [OF g] d ne obtain old where
    fh: "fh = r @ ?parts" and old: "map_of fs3 fh = Some (FileEntry old)"
    by (auto simp add: append_butlast_last_id)
  from assms i r ne w g obtain content where c: "bytesOf data = Some content"
    by (auto simp add: saveFile_def ensureDirectory_def Let_def toArrayBuffer_bytesOf
        split: if_splits option.splits)
  from assms i r ne w g c old
  have "s' = emitChange \<lparr> change_type = FileAdded, change_path = path \<rparr>
              (s1\<lparr> fileSystem := AList.update fh (FileEntry content) fs3 \<rparr>)"
    by (auto simp add: saveFile_def ensureDirectory_def Let_def toArrayBuffer_bytesOf
        worker_write window_write split: if_splits)
  with i r ne w g c d fh fs show ?thesis by auto
qed

lemma emitChange_frame:
  "rootDir (emitChange ev s) = rootDir s" "fileSystem (emitChange ev s) = fileSystem s"
  "execContext (emitChange ev s) = execContext s" "initPromise (emitChange ev s) = initPromise s"
  by (simp_all add: emitChange_def)

text \<open>A successful save can be read back.\<close>

lemma saveFile_then_readFile:
  assumes "saveFile path data s = (None, s')"
  shows "pathParts path \<noteq> []
    \<and> (\<exists>content. bytesOf data = Some content \<and> readFile path s' = (Inr content, s'))"
proof -
  from saveFile_success [OF assms] obtain s1 r fs1 fs3 content where
    i: "ensureInit s = (None, s1)" and r: "rootDir s1 = Some r" and ne: "pathParts path \<noteq> []"
    and w: "walkDirectories True r (butlast (pathParts path)) (fileSystem s) =
          (Inr (r @ butlast (pathParts path)), fs1)"
    and g: "getFileHandle True (r @ butlast (pathParts path)) (last (pathParts path)) fs1 =
          (Inr (r @ pathParts path), fs3)"
    and c: "bytesOf data = Some content"
    and s': "s' = emitChange \<lparr> change_type = FileAdded, change_path = path \<rparr>
              (s1\<lparr> fileSystem := AList.update (r @ pathParts path) (FileEntry content) fs3 \<rparr>)"
    by blast
  let ?parts = "pathParts path"
  let ?fs = "AList.update (r @ ?parts) (FileEntry content) fs3"
  from getFileHandle_file [OF g] obtain old where
    valid: "validFileName (last ?parts)" and dir1: "isDirectory fs1 (r @ butlast ?parts)"
    and k13: "dirsKept fs1 fs3" and old: "map_of fs3 (r @ ?parts) = Some (FileEntry old)"
    by auto
  from old have k3: "dirsKept fs3 ?fs" by (intro dirsKept_update) simp
  have kept: "dirsKept fs1 ?fs" using k13 k3 by (rule dirsKept_trans)
  have walk: "walkDirectories False r (butlast ?parts) ?fs = (Inr (r @ butlast ?parts), ?fs)"
    using walk_walkable [OF w] kept by (intro walkable_walk) (rule walkable_kept)
  have dir: "isDirectory ?fs (r @ butlast ?parts)" using kept dir1 by (rule isDirectory_kept)
  have leaf: "map_of ?fs (r @ butlast ?parts @ [last ?parts]) = Some (FileEntry content)"
    using ne by (simp add: update_conv')
  have root': "rootDir s' = Some r" and fs': "fileSystem s' = ?fs"
    using r by (simp_all add: s' emitChange_frame)
  have init: "ensureInit s' = (None, s')" using root' by (simp add: ensureInit_initialised)
  have "readFile path s' = (Inr content, s')"
    using init root' fs' ne walk dir valid leaf
    by (simp add: readFile_def ensureDirectory_def Let_def getFileHandle_def fileContent_def)
  with c ne show ?thesis by simp
qed

text \<open>
  C6, as the code has it. A successful \<open>saveFile(path, data)\<close> dispatches one
  \<open>file-added\<close> event carrying the path when the global \<open>window\<close> exists, as it does in
  the foreground context, and dispatches nothing when it does not, as in a worker. A store
  that initialises during the call takes its context from the platform.
\<close>

theorem save_publishes_in_window:
  assumes "saveFile path data s = (None, s')"
  shows "dispatched s' = dispatched s @
      (if windowDefined s then [\<lparr> change_type = FileAdded, change_path = path \<rparr>] else [])
    \<and> (rootDir s = None \<longrightarrow> execContext s' = getExecutionContext s)"
proof -
  from saveFile_success [OF assms] obtain s1 r X where
    i: "ensureInit s = (None, s1)" and r: "rootDir s1 = Some r"
    and s': "s' = emitChange \<lparr> change_type = FileAdded, change_path = path \<rparr> (s1\<lparr> fileSystem := X \<rparr>)"
    by blast
  from i r have "rootDir s = None \<longrightarrow> execContext s1 = getExecutionContext s"
    by (auto simp add: ensureInit_def Let_def split: if_splits option.splits promiseState.splits)
  with ensureInit_ok [OF i] show ?thesis by (simp add: s' emitChange_def)
qed

lemmas storage_defs =
  saveFile_def readFile_def ensureInit_def ensureDirectory_def pathParts_def getExecutionContext_def
  getDirectoryHandle_def getFileHandle_def validFileName_def isDirectory_def fileContent_def
  syncTruncate_def syncWrite_def streamReplace_def truncateTo_def writeAtStart_def emitChange_def
  initialStorage_def listEntries_def listDirectories_def listFiles_def entries_def textEncode_def
  slice_def

lemma window_save:
  "fst (saveFile ''a/f.txt'' (ViewData [1, 2, 3, 4, 5] 1 3) windowStore) = None"
  by (simp add: storage_defs windowStore_def demoFs_def Let_def)

lemma worker_save:
  "fst (saveFile ''a/f.txt'' (StringData ''hi'') workerStore) = None"
  "dispatched (snd (saveFile ''a/f.txt'' (StringData ''hi'') workerStore)) = []"
  by (simp_all add: storage_defs workerStore_def demoFs_def Let_def)

text \<open>
  C6 as stated fails in a worker: the save succeeds and no event is dispatched.
\<close>

theorem worker_save_publishes_nothing:
  "fst (saveFile ''a/f.txt'' (StringData ''hi'') workerStore) = None
   \<and> execContext (snd (saveFile ''a/f.txt'' (StringData ''hi'') workerStore)) = Worker
   \<and> dispatched (snd (saveFile ''a/f.txt'' (StringData ''hi'') workerStore)) = []"
  by (simp add: storage_defs workerStore_def demoFs_def Let_def)

theorem save_publishes_in_window_witness:
  "windowDefined windowStore
   \<and> fst (saveFile ''a/f.txt'' (ViewData [1, 2, 3, 4, 5] 1 3) windowStore) = None
   \<and> dispatched (snd (saveFile ''a/f.txt'' (ViewData [1, 2, 3, 4, 5] 1 3) windowStore)) =
        [\<lparr> change_type = FileAdded, change_path = ''a/f.txt'' \<rparr>]"
proof -
  let ?w = "saveFile ''a/f.txt'' (ViewData [1, 2, 3, 4, 5] 1 3) windowStore"
  have w: "?w = (None, snd ?w)" using window_save by (simp add: prod_eq_iff)
  have "windowDefined windowStore" "dispatched windowStore = []"
    by (simp_all add: windowStore_def initialStorage_def)
  with save_publishes_in_window [OF w] window_save show ?thesis by simp
qed

subsection \<open>When a save succeeds\<close>

lemma split_segments: "w \<in> set (split sep cs) \<Longrightarrow> sep \<notin> set w"
  by (induction cs arbitrary: w) (auto split: if_splits list.splits)

lemma pathParts_segments:
  "part \<in> set (pathParts path) \<Longrightarrow> part \<noteq> [] \<and> CHR ''/'' \<notin> set part"
  by (auto simp add: pathParts_def dest: split_segments)

lemma usable_init:
  assumes "usable s"
  shows "\<exists>s1. ensureInit s = (None, s1) \<and> rootDir s1 = Some [] \<and> fileSystem s1 = fileSystem s
      \<and> dispatched s1 = dispatched s \<and> windowDefined s1 = windowDefined s"
  using assms by (auto simp add: usable_def ensureInit_def Let_def)

lemma noFileAlong_new_directory:
  "noFileAlong fs d parts \<Longrightarrow> noFileAlong (AList.update k DirEntry fs) d parts"
  by (induction parts arbitrary: d) (auto simp add: update_conv' split: option.splits entry.splits)

lemma walk_progress:
  assumes "isDirectory fs dir" and "\<forall>part \<in> set parts. validFileName part"
    and "noFileAlong fs dir parts"
  shows "\<exists>fs'. walkDirectories True dir parts fs = (Inr (dir @ parts), fs')
    \<and> isDirectory fs' (dir @ parts)
    \<and> (\<forall>p. length dir + length parts < length p \<longrightarrow> map_of fs' p = map_of fs p)"
  using assms
proof (induction parts arbitrary: dir fs)
  case Nil
  then show ?case by simp
next
  case (Cons part parts)
  from Cons.prems have valid: "validFileName part"
    and free: "map_of fs (dir @ [part]) = None \<or> map_of fs (dir @ [part]) = Some DirEntry"
    and rest: "noFileAlong fs (dir @ [part]) parts"
    by (auto split: option.splits entry.splits)
  let ?fs1 = "if map_of fs (dir @ [part]) = None then AList.update (dir @ [part]) DirEntry fs else fs"
  have g: "getDirectoryHandle True dir part fs = (Inr (dir @ [part]), ?fs1)"
    using valid free Cons.prems(1) by (auto simp add: getDirectoryHandle_def)
  have d1: "isDirectory ?fs1 (dir @ [part])"
    using free by (auto simp add: isDirectory_def update_conv')
  have n1: "noFileAlong ?fs1 (dir @ [part]) parts"
    using rest by (simp add: noFileAlong_new_directory)
  have v1: "\<forall>part \<in> set parts. validFileName part" using Cons.prems(2) by simp
  from Cons.IH [OF d1 v1 n1] obtain fs' where
    w: "walkDirectories True (dir @ [part]) parts ?fs1 = (Inr ((dir @ [part]) @ parts), fs')"
    and d': "isDirectory fs' ((dir @ [part]) @ parts)"
    and same: "\<forall>p. length (dir @ [part]) + length parts < length p \<longrightarrow> map_of fs' p = map_of ?fs1 p"
    by blast
  have "map_of fs' p = map_of fs p" if "length dir + length (part # parts) < length p" for p
  proof -
    from that have "map_of fs' p = map_of ?fs1 p" using same by simp
    moreover from that have "p \<noteq> dir @ [part]" by auto
    ultimately show ?thesis by (simp add: update_conv')
  qed
  with g w d' show ?case by simp
qed

lemma saveFile_progress:
  assumes u: "usable s" and ne: "pathParts path \<noteq> []"
    and dots: "\<forall>part \<in> set (pathParts path). part \<noteq> ''.'' \<and> part \<noteq> ''..''"
    and along: "noFileAlong (fileSystem s) [] (butlast (pathParts path))"
    and leaf: "map_of (fileSystem s) (pathParts path) \<noteq> Some DirEntry"
    and data: "bytesOf data \<noteq> None"
  shows "fst (saveFile path data s) = None"
proof -
  let ?parts = "pathParts path"
  from usable_init [OF u] obtain s1 where
    i: "ensureInit s = (None, s1)" and r: "rootDir s1 = Some []" and fs: "fileSystem s1 = fileSystem s"
    by blast
  have valid: "\<forall>part \<in> set ?parts. validFileName part"
    using dots pathParts_segments [of _ path] by (auto simp add: validFileName_def)
  then have valid_dirs: "\<forall>part \<in> set (butlast ?parts). validFileName part"
    by (meson in_set_butlastD)
  have root: "isDirectory (fileSystem s) []" by (simp add: isDirectory_def)
  from walk_progress [OF root valid_dirs along] obtain fs1 where
    w: "walkDirectories True [] (butlast ?parts) (fileSystem s) = (Inr (butlast ?parts), fs1)"
    and d1: "isDirectory fs1 (butlast ?parts)"
    and same: "\<forall>p. length (butlast ?parts) < length p \<longrightarrow> map_of fs1 p = map_of (fileSystem s) p"
    by auto
  have whole: "butlast ?parts @ [last ?parts] = ?parts" using ne by simp
  have "map_of fs1 ?parts = map_of (fileSystem s) ?parts" using same ne by simp
  with leaf have nodir: "map_of fs1 (butlast ?parts @ [last ?parts]) \<noteq> Some DirEntry"
    by (simp add: whole)
  have vleaf: "validFileName (last ?parts)" using valid ne by simp
  have "\<exists>fs3. getFileHandle True (butlast ?parts) (last ?parts) fs1 =
      (Inr (butlast ?parts @ [last ?parts]), fs3)"
  proof (cases "map_of fs1 (butlast ?parts @ [last ?parts])")
    case None
    with vleaf d1 show ?thesis by (simp add: getFileHandle_def)
  next
    case (Some e)
    with nodir obtain content where "e = FileEntry content" by (cases e) auto
    with Some vleaf d1 show ?thesis by (simp add: getFileHandle_def)
  qed
  then obtain fs3 where
    g: "getFileHandle True (butlast ?parts) (last ?parts) fs1 = (Inr (butlast ?parts @ [last ?parts]), fs3)"
    by blast
  from data obtain content where c: "bytesOf data = Some content" by auto
  show ?thesis
    using i r fs ne w g c
    by (simp add: saveFile_def ensureDirectory_def Let_def toArrayBuffer_bytesOf
        del: bytesOf.simps toArrayBuffer.simps)
qed

text \<open>
  C2 as stated fails: a path with a non-empty segment and a supported payload do not make
  a save succeed. Over a file system with the folder \<open>a\<close> and the file \<open>a/f.txt\<close>, the
  saves to \<open>a\<close>, to \<open>a/f.txt/x\<close> and to \<open>./c\<close> are rejected, and reading \<open>a\<close> back fails.
\<close>

theorem save_rejected_on_valid_path:
  "pathParts ''a'' \<noteq> [] \<and> bytesOf (StringData ''hi'') \<noteq> None
   \<and> fst (saveFile ''a'' (StringData ''hi'') windowStore) = Some TypeMismatchError
   \<and> fst (readFile ''a'' (snd (saveFile ''a'' (StringData ''hi'') windowStore))) = Inl TypeMismatchError
   \<and> pathParts ''a/f.txt/x'' \<noteq> []
   \<and> fst (saveFile ''a/f.txt/x'' (StringData ''hi'') windowStore) = Some TypeMismatchError
   \<and> pathParts ''./c'' \<noteq> []
   \<and> fst (saveFile ''./c'' (StringData ''hi'') windowStore) = Some TypeError"
  by (simp add: storage_defs windowStore_def demoFs_def Let_def)

text \<open>
  C2, as the code has it. On a store that is initialised or can initialise, for a path with
  a non-empty segment none of whose segments is \<open>.\<close> or \<open>..\<close>, where no name along the
  path's directories is taken by a file and the path itself is not a directory, and for a
  supported payload, \<open>saveFile(path, data)\<close> succeeds. And whenever
  \<open>saveFile(path, data)\<close> has succeeded, in a worker or in a foreground page and whatever
  the file system held before, \<open>readFile(path)\<close> returns exactly the bytes of the data,
  leaving the store as it is.
\<close>

theorem save_then_read:
  "(usable s \<and> pathParts path \<noteq> []
      \<and> (\<forall>part \<in> set (pathParts path). part \<noteq> ''.'' \<and> part \<noteq> ''..'')
      \<and> noFileAlong (fileSystem s) [] (butlast (pathParts path))
      \<and> map_of (fileSystem s) (pathParts path) \<noteq> Some DirEntry
      \<and> bytesOf data \<noteq> None
    \<longrightarrow> fst (saveFile path data s) = None)
   \<and> (fst (saveFile path data s) = None \<longrightarrow>
        pathParts path \<noteq> []
      \<and> (\<exists>content. bytesOf data = Some content
            \<and> readFile path (snd (saveFile path data s)) = (Inr content, snd (saveFile path data s))))"
proof (intro conjI impI)
  assume "usable s \<and> pathParts path \<noteq> []
      \<and> (\<forall>part \<in> set (pathParts path). part \<noteq> ''.'' \<and> part \<noteq> ''..'')
      \<and> noFileAlong (fileSystem s) [] (butlast (pathParts path))
      \<and> map_of (fileSystem s) (pathParts path) \<noteq> Some DirEntry
      \<and> bytesOf data \<noteq> None"
  then show "fst (saveFile path data s) = None" by (intro saveFile_progress) simp_all
next
  assume "fst (saveFile path data s) = None"
  then have saved: "saveFile path data s = (None, snd (saveFile path data s))"
    by (simp add: prod_eq_iff)
  from saveFile_then_readFile [OF saved] show "pathParts path \<noteq> []" by simp
  from saveFile_then_readFile [OF saved]
  show "\<exists>content. bytesOf data = Some content
      \<and> readFile path (snd (saveFile path data s)) = (Inr content, snd (saveFile path data s))"
    by simp
qed

theorem save_then_read_witness:
  "usable windowStore \<and> pathParts ''a/f.txt'' = [''a'', ''f.txt'']
   \<and> noFileAlong (fileSystem windowStore) [] [''a'']
   \<and> map_of (fileSystem windowStore) [''a'', ''f.txt''] = Some (FileEntry [9, 9, 9])
   \<and> fst (saveFile ''a/f.txt'' (ViewData [1, 2, 3, 4, 5] 1 3) windowStore) = None
   \<and> fst (readFile ''a/f.txt'' (snd (saveFile ''a/f.txt'' (ViewData [1, 2, 3, 4, 5] 1 3) windowStore)))
       = Inr [2, 3, 4]
   \<and> usable workerStore
   \<and> fst (saveFile ''a/f.txt'' (StringData ''hi'') workerStore) = None
   \<and> fst (readFile ''a/f.txt'' (snd (saveFile ''a/f.txt'' (StringData ''hi'') workerStore)))
       = Inr [104, 105]"
proof -
  let ?w = "saveFile ''a/f.txt'' (ViewData [1, 2, 3, 4, 5] 1 3) windowStore"
  let ?k = "saveFile ''a/f.txt'' (StringData ''hi'') workerStore"
  have parts: "pathParts ''a/f.txt'' = [''a'', ''f.txt'']" by (simp add: pathParts_def)
  have uw: "usable windowStore" and uk: "usable workerStore"
    by (simp_all add: usable_def windowStore_def workerStore_def initialStorage_def
        getExecutionContext_def)
  have fw: "noFileAlong (fileSystem windowStore) [] [''a'']"
      "map_of (fileSystem windowStore) [''a'', ''f.txt''] = Some (FileEntry [9, 9, 9])"
    and fk: "noFileAlong (fileSystem workerStore) [] [''a'']"
      "map_of (fileSystem workerStore) [''a'', ''f.txt''] = Some (FileEntry [9, 9, 9])"
    by (simp_all add: windowStore_def workerStore_def initialStorage_def demoFs_def)
  from save_then_read [of windowStore "''a/f.txt''" "ViewData [1, 2, 3, 4, 5] 1 3"] uw fw
  have w: "fst ?w = None \<and> fst (readFile ''a/f.txt'' (snd ?w)) = Inr [2, 3, 4]"
    by (auto simp add: parts)
  from save_then_read [of workerStore "''a/f.txt''" "StringData ''hi''"] uk fk
  have k: "fst ?k = None \<and> fst (readFile ''a/f.txt'' (snd ?k)) = Inr [104, 105]"
    by (auto simp add: parts textEncode_def)
  from parts uw uk fw w k show ?thesis by simp
qed

section \<open>Properties of the catalog hook\<close>

lemma insertSorted_insort:
  "insertSorted (\<lambda>a b. f b - f a) x ys = insort_key (\<lambda>m. - f m) x ys"
  for f :: "'a \<Rightarrow> int"
  by (induction ys) simp_all

lemma arraySort_sort_key:
  "arraySort (\<lambda>a b. f b - f a) xs = sort_key (\<lambda>m. - f m) xs"
  for f :: "'a \<Rightarrow> int"
  by (induction xs) (simp_all add: arraySort_def sort_key_def insertSorted_insort)

lemma arraySort_descending:
  "sorted_wrt (\<lambda>a b. f a \<ge> f b) (arraySort (\<lambda>a b. f b - f a) xs)"
  for f :: "'a \<Rightarrow> int"
proof -
  have "sorted (map (\<lambda>m. - f m) (sort_key (\<lambda>m. - f m) xs))" by (rule sorted_sort_key)
  then show ?thesis by (simp add: arraySort_sort_key sorted_map)
qed

lemma arraySort_strict:
  fixes f :: "'a \<Rightarrow> int"
  assumes "distinct (map f xs)"
  shows "sorted_wrt (\<lambda>a b. f a > f b) (arraySort (\<lambda>a b. f b - f a) xs)"
proof -
  let ?ys = "sort_key (\<lambda>m. - f m) xs"
  have "mset (map f ?ys) = mset (map f xs)" by simp
  with assms have "distinct (map f ?ys)" by (metis distinct_count_atmost_1 set_mset_mset)
  then have d: "distinct (map (\<lambda>m. - f m) ?ys)"
    by (simp add: distinct_map inj_on_def)
  have "sorted (map (\<lambda>m. - f m) ?ys)" by (rule sorted_sort_key)
  with d have "sorted_wrt (<) (map (\<lambda>m. - f m) ?ys)" by (simp add: strict_sorted_iff)
  then show ?thesis by (simp add: arraySort_sort_key sorted_wrt_map)
qed

lemma arraySort_stable:
  "filter (\<lambda>m. f m = t) (arraySort (\<lambda>a b. f b - f a) xs) = filter (\<lambda>m. f m = t) xs"
  for f :: "'a \<Rightarrow> int"
  using sort_key_stable [of "\<lambda>m. - f m" "- t" xs] by (simp add: arraySort_sort_key)

lemma arraySort_mset: "mset (arraySort (\<lambda>a b. f b - f a) xs) = mset xs"
  for f :: "'a \<Rightarrow> int"
  by (simp add: arraySort_sort_key)

lemma walk_lookup_only: "walkDirectories False d parts fs = (r, fs') \<Longrightarrow> fs' = fs"
proof (induction parts arbitrary: d)
  case Nil
  then show ?case by simp
next
  case (Cons part parts)
  then show ?case
    by (auto simp add: getDirectoryHandle_def split: if_splits option.splits entry.splits)
qed

lemma readFile_pure: "rootDir s \<noteq> None \<Longrightarrow> snd (readFile path s) = s"
  by (auto simp add: readFile_def ensureInit_initialised ensureDirectory_def Let_def
      getFileHandle_def split: prod.splits sum.splits option.splits entry.splits
      dest: walk_lookup_only)

lemma loadMetadata_pure: "rootDir s \<noteq> None \<Longrightarrow> snd (loadMetadata jsonParse folder s) = s"
  using readFile_pure [of s "folder @ ''/metadata.json''"]
  by (auto simp add: loadMetadata_def Let_def split: prod.splits sum.splits)

lemma listEntries_initialised:
  "listEntries kind path s = (Inr names, s1) \<Longrightarrow> rootDir s1 \<noteq> None"
  by (auto simp add: listEntries_def split: prod.splits sum.splits option.splits)

lemma promiseAll_pure:
  assumes "\<And>x. snd (f x s) = s"
  shows "snd (promiseAll f xs s) = s
    \<and> (case fst (promiseAll f xs s) of
          Inr vs \<Rightarrow> list_all2 (\<lambda>x v. fst (f x s) = Inr v) xs vs
        | Inl e \<Rightarrow> \<exists>x \<in> set xs. fst (f x s) = Inl e)"
proof (induction xs)
  case Nil
  show ?case by simp
next
  case (Cons x xs)
  obtain r where r: "f x s = (r, s)" using assms [of x] by (cases "f x s") simp
  obtain rs where rs: "promiseAll f xs s = (rs, s)" using Cons by (cases "promiseAll f xs s") simp
  from Cons rs r show ?case by (auto split: sum.splits)
qed


lemma loadFolders_success:
  assumes "listDirectories [] s = (Inr directories, s1)"
    and "promiseAll (loadMetadata jsonParse) directories s1 = (Inr loaded, s2)"
  shows "loadFolders jsonParse (s, h) =
    (s2, h\<lparr> folders := arraySort (\<lambda>a b. md_uploadedAt b - md_uploadedAt a) loaded,
             loadError := None, isLoading := False \<rparr>)"
  using assms by (simp add: loadFolders_def)

lemma loadFolders_entry_failure:
  assumes "listDirectories [] s = (Inr directories, s1)"
    and "promiseAll (loadMetadata jsonParse) directories s1 = (Inl e, s2)"
  shows "loadFolders jsonParse (s, h) = (s2, h\<lparr> loadError := Some e, isLoading := False \<rparr>)"
  using assms by (simp add: loadFolders_def)

text \<open>
  C5. When the listing and every sidecar load succeed, \<open>loadFolders\<close> stores the loaded
  entries, which are the sidecars of the listed directories in listing order, sorted by
  \<open>uploadedAt\<close> in descending order: strictly descending when the upload times are distinct,
  and with the entries of any one upload time in their listing order.
\<close>

theorem load_sorted_descending:
  assumes "listDirectories [] s = (Inr directories, s1)"
    and "promiseAll (loadMetadata jsonParse) directories s1 = (Inr loaded, s2)"
  shows "list_all2 (\<lambda>folder m. fst (loadMetadata jsonParse folder s1) = Inr m) directories loaded
    \<and> loadError (snd (loadFolders jsonParse (s, h))) = None
    \<and> mset (folders (snd (loadFolders jsonParse (s, h)))) = mset loaded
    \<and> sorted_wrt (\<lambda>a b. md_uploadedAt a \<ge> md_uploadedAt b) (folders (snd (loadFolders jsonParse (s, h))))
    \<and> (distinct (map md_uploadedAt loaded) \<longrightarrow>
         sorted_wrt (\<lambda>a b. md_uploadedAt a > md_uploadedAt b) (folders (snd (loadFolders jsonParse (s, h)))))
    \<and> (\<forall>t. filter (\<lambda>m. md_uploadedAt m = t) (folders (snd (loadFolders jsonParse (s, h))))
           = filter (\<lambda>m. md_uploadedAt m = t) loaded)"
proof -
  from assms(1) have "rootDir s1 \<noteq> None"
    unfolding listDirectories_def by (rule listEntries_initialised)
  then have "snd (loadMetadata jsonParse folder s1) = s1" for folder
    by (rule loadMetadata_pure)
  from promiseAll_pure [of "loadMetadata jsonParse" s1 directories, OF this] assms(2)
  have order: "list_all2 (\<lambda>folder m. fst (loadMetadata jsonParse folder s1) = Inr m) directories loaded"
    by simp
  have f: "folders (snd (loadFolders jsonParse (s, h))) =
      arraySort (\<lambda>a b. md_uploadedAt b - md_uploadedAt a) loaded"
    and e: "loadError (snd (loadFolders jsonParse (s, h))) = None"
    by (simp_all add: loadFolders_success [OF assms])
  show ?thesis
    unfolding f
    using order e arraySort_mset [of md_uploadedAt loaded] arraySort_descending [of md_uploadedAt loaded]
      arraySort_strict [of md_uploadedAt loaded] arraySort_stable [of md_uploadedAt _ loaded]
    by simp
qed

lemma uploaded_listing:
  "listDirectories [] uploadedStore = (Inr [''a'', ''b''], snd (listDirectories [] uploadedStore))"
  by (simp add: storage_defs uploadedStore_def halfUploadedFs_def Let_def)

lemma uploaded_sidecars:
  "promiseAll (loadMetadata demoParse) [''a'', ''b''] (snd (listDirectories [] uploadedStore)) =
     (Inr [demoMetadata ''entry'' 2, demoMetadata ''entry'' 3],
      snd (promiseAll (loadMetadata demoParse) [''a'', ''b''] (snd (listDirectories [] uploadedStore))))"
  by (simp add: storage_defs uploadedStore_def halfUploadedFs_def Let_def loadMetadata_def
      demoParse_def textDecode_def)

theorem load_sorted_descending_witness:
  "fst (listDirectories [] uploadedStore) = Inr [''a'', ''b'']
   \<and> mset (folders (snd (loadFolders demoParse (uploadedStore, initialCatalog)))) =
        {# demoMetadata ''entry'' 2, demoMetadata ''entry'' 3 #}
   \<and> sorted_wrt (\<lambda>a b. md_uploadedAt a > md_uploadedAt b)
        (folders (snd (loadFolders demoParse (uploadedStore, initialCatalog))))
   \<and> map md_uploadedAt (folders (snd (loadFolders demoParse (uploadedStore, initialCatalog)))) = [3, 2]"
proof -
  have l: "fst (listDirectories [] uploadedStore) = Inr [''a'', ''b'']"
    using uploaded_listing by (simp add: prod_eq_iff)
  have d: "distinct (map md_uploadedAt [demoMetadata ''entry'' 2, demoMetadata ''entry'' 3])"
    by (simp add: demoMetadata_def)
  have v: "map md_uploadedAt (folders (snd (loadFolders demoParse (uploadedStore, initialCatalog)))) = [3, 2]"
    by (simp add: loadFolders_success [OF uploaded_listing uploaded_sidecars] arraySort_def
        demoMetadata_def)
  from load_sorted_descending [OF uploaded_listing uploaded_sidecars, of initialCatalog] d l v
  show ?thesis by simp
qed

text \<open>
  C3. One entry whose sidecar cannot be read makes \<open>loadFolders\<close> fail as a whole: on a
  store with a complete entry \<open>a\<close> and an entry \<open>b\<close> without sidecar, the listing
  succeeds and the sidecar of \<open>a\<close> loads, yet the catalog list stays empty and the error of
  the missing sidecar is recorded. \<open>getAllFiles\<close> on the same store drops \<open>b\<close> and returns
  \<open>a\<close>.
\<close>

theorem load_fails_on_one_unreadable_sidecar:
  "fst (listDirectories [] halfUploadedStore) = Inr [''a'', ''b'']
   \<and> fst (loadMetadata demoParse ''a'' (snd (listDirectories [] halfUploadedStore))) =
        Inr (demoMetadata ''entry'' 2)
   \<and> fst (loadMetadata demoParse ''b'' (snd (listDirectories [] halfUploadedStore))) =
        Inl NotFoundError
   \<and> folders (snd (loadFolders demoParse (halfUploadedStore, initialCatalog))) = []
   \<and> loadError (snd (loadFolders demoParse (halfUploadedStore, initialCatalog))) = Some NotFoundError
   \<and> fst (getAllFiles demoParse halfUploadedStore) =
        Inr [\<lparr> fe_metadata = demoMetadata ''entry'' 2, fe_buffer = [1] \<rparr>]"
  by (simp add: storage_defs halfUploadedStore_def halfUploadedFs_def Let_def loadMetadata_def
      loadFolders_def getAllFiles_def readFolder_def demoParse_def textDecode_def initialCatalog_def
      arraySort_def)

section \<open>Properties of the upload component\<close>

lemmas upload_defs =
  handleFileUpload_def isValidAudioFile_def getAudioFolderName_def createAudioMetadata_def
  extensionAt_def startsWith_def AUDIO_MIME_TYPES_def emptyStore_def demoEnv_def
  demoStringify_def songMp3_def songWav_def

text \<open>
  C7. Uploading \<open>song.mp3\<close> and then \<open>song.wav\<close>, both valid audio files whatever the
  platform's \<open>toLowerCase\<close>, into an empty store leaves one folder \<open>song\<close> with two payload
  files beside its sidecar. The sidecar is the one of \<open>song.wav\<close>, and \<open>getAllFiles\<close>,
  which takes the first file that is not the sidecar, pairs it with the bytes of
  \<open>song.mp3\<close>.
\<close>

theorem same_stem_uploads_share_folder:
  "isValidAudioFile toLowerCase songMp3 \<and> isValidAudioFile toLowerCase songWav
   \<and> fst (listDirectories []
          (uploadAll toLowerCase demoStringify [(demoEnv, songMp3), (demoEnv, songWav)] emptyStore)) =
        Inr [''song'']
   \<and> fst (listFiles ''song''
          (uploadAll toLowerCase demoStringify [(demoEnv, songMp3), (demoEnv, songWav)] emptyStore)) =
        Inr [''song.mp3'', ''metadata.json'', ''song.wav'']
   \<and> fst (readFile ''song/metadata.json''
          (uploadAll toLowerCase demoStringify [(demoEnv, songMp3), (demoEnv, songWav)] emptyStore)) =
        Inr (textEncode ''{ fileName: song.wav }'')
   \<and> fst (getAllFiles demoParse
          (uploadAll toLowerCase demoStringify [(demoEnv, songMp3), (demoEnv, songWav)] emptyStore)) =
        Inr [\<lparr> fe_metadata = demoMetadata ''entry'' 22, fe_buffer = [1, 2, 3] \<rparr>]"
  by (simp add: upload_defs storage_defs Let_def getAllFiles_def readFolder_def loadMetadata_def
      demoParse_def textDecode_def arraySort_def)

end
